theory Spec2Isabelle
  imports Complex_Main "HOL-Library.Word"
begin

section \<open>Conventions of the embedding\<close>

text \<open>
  The DSP core of the plugin (pa.h, Filter.h, CombFilter.h, Reverb.h, RiserProcessor.h) is
  embedded function by function.
  \<^item> \<open>float\<close> and \<open>double\<close> values are the real numbers they denote, and the arithmetic on
    them is exact. There is no overflow and no infinity.
  \<^item> Where the ring buffer turns a delay time into a number of samples, the
    single-precision operations of the source are rounded (\<open>float32\<close>).
  \<^item> The buffers and processors take the type of the samples they carry as a parameter, as
    the class templates \<open>HeapBlock<ElementType>\<close> and \<open>RingBuffer<FloatType>\<close> do: a type
    with a zero, addition, subtraction and the multiplication \<open>g *\<^sub>R x\<close> of a sample \<open>x\<close>
    by a gain or coefficient \<open>g\<close>, which is a real number. For samples that are real numbers
    \<open>g *\<^sub>R x\<close> is the product \<open>g x\<close>. The signal chain of \<open>RiserProcessor\<close> runs on the type
    \<open>sample\<close>, which adds the NaN of IEEE 754 to the numbers.
  \<^item> \<open>uint\<close> is a 32-bit word; \<open>+\<close>, \<open>-\<close> and \<open>*\<close> wrap around as in C++.
  \<^item> A pointer to a sample is an \<open>option\<close>: \<open>None\<close> is \<open>nullptr\<close>.
  \<^item> A member function that mutates its object takes the object and returns the new one.
  \<^item> Undefined behaviour of the source (dereferencing \<open>nullptr\<close>, touching memory outside an
    allocation, a failed \<open>jassert\<close>) is a value of type \<open>error\<close>, returned as \<open>Inl\<close>.
\<close>

datatype error = NullPointer | OutOfBounds | AssertFailed

type_synonym uint = "32 word"

text \<open>Conversions \<open>int(x)\<close> and \<open>uint(x)\<close> of a floating value truncate towards zero.\<close>

definition to_int :: "real \<Rightarrow> int" where
  "to_int x = (if 0 \<le> x then \<lfloor>x\<rfloor> else - \<lfloor>- x\<rfloor>)"

definition to_uint :: "real \<Rightarrow> uint" where
  "to_uint x = word_of_int (to_int x)"

definition of_uint :: "uint \<Rightarrow> real" where
  "of_uint w = real (unat w)"

text \<open>
  Rounding of a real number to single precision (\<open>float\<close>): to the nearest value, and on a
  tie to the one with the even significand. \<open>y\<close> is the magnitude in units of \<open>2^-149\<close>, the
  smallest positive \<open>float\<close>. Below \<open>2^24\<close> units (the subnormal numbers and the first
  binade of the normal ones) neighbouring values are one unit apart; from there on the
  spacing doubles with every power of two. Magnitudes beyond the largest finite \<open>float\<close> are
  rounded as if the exponent had no upper limit.
\<close>

fun floor_log2 :: "nat \<Rightarrow> nat" where
  "floor_log2 n = (if n < 2 then 0 else Suc (floor_log2 (n div 2)))"

declare floor_log2.simps [simp del]

definition round_to_even :: "real \<Rightarrow> int" where
  "round_to_even x =
     (let f = \<lfloor>x\<rfloor>; r = x - of_int f
      in if r < 1 / 2 then f else if r > 1 / 2 then f + 1 else if even f then f else f + 1)"

definition float32 :: "real \<Rightarrow> real" where
  "float32 x =
     (let y = \<bar>x\<bar> * 2 ^ 149;
          p = floor_log2 (nat \<lfloor>y\<rfloor>) - 23;
          m = round_to_even (y / 2 ^ p)
      in sgn x * (of_int m * 2 ^ p / 2 ^ 149))"

text \<open>\<open>std::fmod\<close>: the remainder has the sign of the dividend.\<close>

definition fmod :: "real \<Rightarrow> real \<Rightarrow> real" where
  "fmod a b = a - b * of_int (to_int (a / b))"

text \<open>The macro \<open>M_PI\<close> of math.h, a decimal literal.\<close>

definition M_PI :: real where
  "M_PI = 3.14159265358979323846"

text \<open>The macro \<open>M_SQRT1_2\<close> of math.h, a decimal literal.\<close>

definition M_SQRT1_2 :: real where
  "M_SQRT1_2 = 0.70710678118654752440"

section \<open>pa::math\<close>

text \<open>
  \<open>map\<close> is \<open>map_range\<close> here. The callers in Filter.h, Reverb.h and RiserProcessor.h
  spell \<open>FastTan\<close> and \<open>ExpRounder\<close> with a small initial letter; pa.h has no other
  candidates. \<open>abs\<close> on a \<open>float\<close> is the floating-point absolute value.
\<close>

definition clamp :: "'a::ord \<Rightarrow> 'a \<Rightarrow> 'a \<Rightarrow> 'a" where
  "clamp val mn mx = (if val < mn then mn else if val > mx then mx else val)"

text \<open>\<open>setClamp\<close> overwrites the pointee; the model returns its new value.\<close>

definition setClamp :: "'a::ord \<Rightarrow> 'a \<Rightarrow> 'a \<Rightarrow> 'a" where
  "setClamp val mn mx = (if val < mn then mn else if val > mx then mx else val)"

definition map_range :: "real \<Rightarrow> real \<Rightarrow> real \<Rightarrow> real \<Rightarrow> real \<Rightarrow> real" where
  "map_range val inMin inMax outMin outMax =
     ((val - inMin) / (inMax - inMin)) * (outMax - outMin) + outMin"

definition mod1 :: "real \<Rightarrow> real" where
  "mod1 input = input - of_int (to_int input)"

definition WrapPi :: "real \<Rightarrow> bool \<Rightarrow> real" where
  "WrapPi input useHalfPi =
     (if useHalfPi then fmod (input - M_PI * 0.5) M_PI - M_PI * 0.5
      else fmod (input - M_PI) (2 * M_PI) - M_PI)"

definition FastTan :: "real \<Rightarrow> real" where
  "FastTan x0 =
     (let x = WrapPi x0 True;
          x2 = x * x;
          num = x * (-135135 + x2 * (17325 + x2 * (-378 + x2)));
          den = -135135 + x2 * (62370 + x2 * (-3150 + 28 * x2))
      in num / den)"

definition LinearInterp :: "'a::{plus,minus,scaleR} \<Rightarrow> 'a \<Rightarrow> real \<Rightarrow> 'a" where
  "LinearInterp a b t = (if t \<le> 0 then a else if t \<ge> 1 then b else a + t *\<^sub>R (b - a))"

definition CubicInterp ::
  "'a::{plus,minus,scaleR} \<Rightarrow> 'a \<Rightarrow> 'a \<Rightarrow> 'a \<Rightarrow> real \<Rightarrow> bool \<Rightarrow> 'a" where
  "CubicInterp a b c d t useCatmullRom =
     (if t \<le> 0 then b else if t \<ge> 1 then c
      else
        let t2 = t * t;
            a0 = (if useCatmullRom
                  then (-0.5) *\<^sub>R a + 1.5 *\<^sub>R b - 1.5 *\<^sub>R c + 0.5 *\<^sub>R d
                  else d - c - a + b);
            a1 = (if useCatmullRom then a - 2.5 *\<^sub>R b + 2 *\<^sub>R c - 0.5 *\<^sub>R d
                  else a - b - a0);
            a2 = (if useCatmullRom then (-0.5) *\<^sub>R a + 0.5 *\<^sub>R c else c - a)
        in t2 *\<^sub>R (t *\<^sub>R a0) + t2 *\<^sub>R a1 + t *\<^sub>R a2 + b)"

definition ExpRounder :: "real \<Rightarrow> real \<Rightarrow> real" where
  "ExpRounder input curveValue =
     (let x = clamp input (-1) 1;
          c0 = clamp curveValue (-1) 1;
          c = (if c0 \<ge> 0 then map_range c0 0 1 0 20 else map_range c0 (-1) 0 (-0.95) 0)
      in if 0 < x \<and> x \<le> 1 then (x * (1 + c)) / (c * x + 1)
         else if -1 \<le> x \<and> x \<le> 0 then (- x * (1 + c)) / (c * x - 1)
         else 0)"

section \<open>Smoothed parameter\<close>

text \<open>
  Modelled from the spec: the smoothed parameter (\<open>juce::SmoothedValue\<close>, a type of the JUCE
  library that the repository uses but does not contain): a scalar that ramps linearly from
  its current value to a target over a configured time, evaluated once per sample. A ramp of
  zero steps jumps to the target at once.
\<close>

record SmoothedValue =
  sv_currentValue :: real
  sv_target :: real
  sv_countdown :: int
  sv_step :: real
  sv_stepsToTarget :: int

definition SmoothedValue_init :: "real \<Rightarrow> SmoothedValue" where
  \<comment> \<open>Modelled from the spec: a smoothed parameter at rest at its initial value.\<close>
  "SmoothedValue_init v =
     \<lparr>sv_currentValue = v, sv_target = v, sv_countdown = 0, sv_step = 0, sv_stepsToTarget = 0\<rparr>"

definition isSmoothing :: "SmoothedValue \<Rightarrow> bool" where
  \<comment> \<open>Modelled from the spec: a ramp is under way.\<close>
  "isSmoothing sv = (sv_countdown sv > 0)"

definition setCurrentAndTargetValue :: "real \<Rightarrow> SmoothedValue \<Rightarrow> SmoothedValue" where
  \<comment> \<open>Modelled from the spec: jump to a value and stop ramping.\<close>
  "setCurrentAndTargetValue v sv = sv\<lparr>sv_target := v, sv_currentValue := v, sv_countdown := 0\<rparr>"

definition SmoothedValue_reset :: "real \<Rightarrow> real \<Rightarrow> SmoothedValue \<Rightarrow> SmoothedValue" where
  \<comment> \<open>Modelled from the spec: configure the ramp duration (seconds) at a sample rate.\<close>
  "SmoothedValue_reset sampleRate rampLengthInSeconds sv =
     setCurrentAndTargetValue (sv_target sv)
       (sv\<lparr>sv_stepsToTarget := \<lfloor>rampLengthInSeconds * sampleRate\<rfloor>\<rparr>)"

definition setTargetValue :: "real \<Rightarrow> SmoothedValue \<Rightarrow> SmoothedValue" where
  \<comment> \<open>Modelled from the spec: start a linear ramp from the current value to the new target.\<close>
  "setTargetValue newValue sv =
     (if newValue = sv_target sv then sv
      else if sv_stepsToTarget sv \<le> 0 then setCurrentAndTargetValue newValue sv
      else sv\<lparr>sv_target := newValue, sv_countdown := sv_stepsToTarget sv,
              sv_step := (newValue - sv_currentValue sv) / of_int (sv_stepsToTarget sv)\<rparr>)"

definition getNextValue :: "SmoothedValue \<Rightarrow> real \<times> SmoothedValue" where
  \<comment> \<open>Modelled from the spec: advance the ramp by one sample and return the value.\<close>
  "getNextValue sv =
     (if \<not> isSmoothing sv then (sv_target sv, sv)
      else
        let sv1 = sv\<lparr>sv_countdown := sv_countdown sv - 1\<rparr>;
            sv2 = (if isSmoothing sv1
                   then sv1\<lparr>sv_currentValue := sv_currentValue sv1 + sv_step sv1\<rparr>
                   else sv1\<lparr>sv_currentValue := sv_target sv1\<rparr>)
        in (sv_currentValue sv2, sv2))"

section \<open>pa::dsp::HeapBlock\<close>

text \<open>
  A block of \<open>size\<close> samples on the heap. \<open>hb_data\<close> lists the cells of the allocation; every
  allocation sets both fields together, so the list has \<open>size\<close> elements.
\<close>

record 'a HeapBlock =
  hb_data :: "'a list"
  hb_size :: uint

definition HeapBlock_init :: "'a HeapBlock" where
  "HeapBlock_init = \<lparr>hb_data = [], hb_size = 0\<rparr>"

text \<open>
  \<open>operator[]\<close>: the cell the returned reference names. An index at or beyond \<open>size\<close> is
  redirected to \<open>data[size]\<close>. A cell outside the allocation is \<open>OutOfBounds\<close>.
\<close>

definition HeapBlock_cell :: "'a HeapBlock \<Rightarrow> uint \<Rightarrow> error + nat" where
  "HeapBlock_cell hb index =
     (let j = (if index \<ge> hb_size hb then hb_size hb else index)
      in if unat j < length (hb_data hb) then Inr (unat j) else Inl OutOfBounds)"

definition HeapBlock_read :: "'a HeapBlock \<Rightarrow> uint \<Rightarrow> error + 'a" where
  "HeapBlock_read hb index =
     (case HeapBlock_cell hb index of Inl e \<Rightarrow> Inl e | Inr j \<Rightarrow> Inr (hb_data hb ! j))"

definition HeapBlock_write :: "'a HeapBlock \<Rightarrow> uint \<Rightarrow> 'a \<Rightarrow> error + 'a HeapBlock" where
  "HeapBlock_write hb index v =
     (case HeapBlock_cell hb index of Inl e \<Rightarrow> Inl e
      | Inr j \<Rightarrow> Inr (hb\<lparr>hb_data := (hb_data hb)[j := v]\<rparr>))"

text \<open>
  \<open>reallocate\<close> keeps the old cells that fit. The cells it adds are uninitialised in the source
  and zero here; its only caller clears the block right after.
\<close>

definition reallocate :: "uint \<Rightarrow> 'a::zero HeapBlock \<Rightarrow> 'a HeapBlock" where
  "reallocate newNumElements hb =
     \<lparr>hb_data = take (unat newNumElements) (hb_data hb)
                 @ replicate (unat newNumElements - length (hb_data hb)) 0,
      hb_size = newNumElements\<rparr>"

definition initialise :: "'a::zero HeapBlock \<Rightarrow> 'a HeapBlock" where
  "initialise hb =
     hb\<lparr>hb_data := replicate (min (unat (hb_size hb)) (length (hb_data hb))) 0
                    @ drop (unat (hb_size hb)) (hb_data hb)\<rparr>"

section \<open>pa::dsp::RingBuffer\<close>

datatype InterpolationType = noInterp | linearInterp | cosineInterp | cubicInterp | hermiteInterp

record 'a RingBuffer =
  rb_buffer :: "'a HeapBlock"
  rb_size :: uint
  rb_writeIndex :: uint
  rb_sampleRate :: uint
  rb_delaySmoothTime :: real
  rb_delayTime :: SmoothedValue

definition RingBuffer_init :: "'a RingBuffer" where
  "RingBuffer_init =
     \<lparr>rb_buffer = HeapBlock_init, rb_size = 0, rb_writeIndex = 0, rb_sampleRate = 44100,
      rb_delaySmoothTime = 0, rb_delayTime = SmoothedValue_init 0\<rparr>"

definition RingBuffer_clear :: "'a::zero RingBuffer \<Rightarrow> 'a RingBuffer" where
  "RingBuffer_clear b = b\<lparr>rb_buffer := initialise (rb_buffer b)\<rparr>"

definition RingBuffer_prepare :: "uint \<Rightarrow> uint \<Rightarrow> 'a::zero RingBuffer \<Rightarrow> 'a RingBuffer" where
  "RingBuffer_prepare newBufferSizeSamples newSampleRate b =
     (let n1 = setClamp newBufferSizeSamples 0 (newBufferSizeSamples * newSampleRate * 10);
          b1 = (if n1 \<noteq> rb_size b
                then let n2 = setClamp n1 0 (newSampleRate * 600)
                     in b\<lparr>rb_writeIndex := 0, rb_buffer := reallocate n2 (rb_buffer b),
                          rb_size := n2\<rparr>
                else b);
          b2 = (if newSampleRate \<noteq> rb_sampleRate b1
                then b1\<lparr>rb_sampleRate := newSampleRate\<rparr> else b1);
          b3 = (if rb_sampleRate b2 = 0 then b2\<lparr>rb_sampleRate := 1\<rparr> else b2)
      in RingBuffer_clear b3)"

definition RingBuffer_prepare_seconds ::
  "real \<Rightarrow> uint \<Rightarrow> 'a::zero RingBuffer \<Rightarrow> 'a RingBuffer" where
  "RingBuffer_prepare_seconds newBufferSizeSeconds newSampleRate b =
     RingBuffer_prepare (to_uint (newBufferSizeSeconds * of_uint newSampleRate)) newSampleRate b"

definition setDelayTime :: "real \<Rightarrow> real \<Rightarrow> 'a RingBuffer \<Rightarrow> 'a RingBuffer" where
  "setDelayTime newDelayTime smoothTime b =
     (let b1 = (if smoothTime \<noteq> rb_delaySmoothTime b
                then let st = setClamp smoothTime 0 smoothTime
                     in b\<lparr>rb_delaySmoothTime := st,
                          rb_delayTime :=
                            SmoothedValue_reset (of_uint (rb_sampleRate b)) st (rb_delayTime b)\<rparr>
                else b);
          nd = clamp \<bar>newDelayTime\<bar> 0
                 (float32 (float32 (of_uint (rb_size b1)) / float32 (of_uint (rb_sampleRate b1))))
      in b1\<lparr>rb_delayTime := setTargetValue nd (rb_delayTime b1)\<rparr>)"

definition getReadIndex :: "uint \<Rightarrow> 'a RingBuffer \<Rightarrow> uint" where
  "getReadIndex readOffset b =
     (let tmp = rb_writeIndex b - readOffset + rb_size b
      in if tmp \<ge> rb_size b then tmp - rb_size b else tmp)"

definition incrementWritePointer :: "'a RingBuffer \<Rightarrow> 'a RingBuffer" where
  "incrementWritePointer b =
     (let w = rb_writeIndex b + 1
      in if w \<ge> rb_size b then b\<lparr>rb_writeIndex := w - rb_size b\<rparr>
         else b\<lparr>rb_writeIndex := w\<rparr>)"

definition getFromBufferNoInterp :: "'a RingBuffer \<Rightarrow> error + 'a \<times> 'a RingBuffer" where
  "getFromBufferNoInterp b =
     (let (delay, dt) = getNextValue (rb_delayTime b);
          b1 = b\<lparr>rb_delayTime := dt\<rparr>;
          readOffset = to_uint (float32 (float32 (of_uint (rb_sampleRate b1)) * delay));
          readIndex = getReadIndex readOffset b1
      in case HeapBlock_read (rb_buffer b1) readIndex of
           Inl e \<Rightarrow> Inl e
         | Inr v \<Rightarrow> Inr (v, b1))"

definition getFromBufferLinearInterp ::
  "'a::{plus,minus,scaleR} RingBuffer \<Rightarrow> error + 'a \<times> 'a RingBuffer" where
  "getFromBufferLinearInterp b =
     (let (delay, dt) = getNextValue (rb_delayTime b);
          b1 = b\<lparr>rb_delayTime := dt\<rparr>;
          readOffset = float32 (float32 (of_uint (rb_sampleRate b1)) * delay);
          readIndex = getReadIndex (to_uint readOffset) b1
      in case HeapBlock_read (rb_buffer b1) readIndex of
           Inl e \<Rightarrow> Inl e
         | Inr s0 \<Rightarrow>
            (case HeapBlock_read (rb_buffer b1) (readIndex - 1) of
               Inl e \<Rightarrow> Inl e
             | Inr s1 \<Rightarrow> Inr (LinearInterp s0 s1 (mod1 readOffset), b1)))"

definition getFromBufferCubicInterp ::
  "'a::{plus,minus,scaleR} RingBuffer \<Rightarrow> error + 'a \<times> 'a RingBuffer" where
  "getFromBufferCubicInterp b =
     (let (delay, dt) = getNextValue (rb_delayTime b);
          b1 = b\<lparr>rb_delayTime := dt\<rparr>;
          readOffset0 = float32 (float32 (of_uint (rb_sampleRate b1)) * delay);
          readOffset = (if readOffset0 < 2 then 2 else readOffset0);
          readIndex = getReadIndex (to_uint readOffset) b1
      in case HeapBlock_read (rb_buffer b1) (readIndex + 1) of
           Inl e \<Rightarrow> Inl e
         | Inr s1 \<Rightarrow>
            (case HeapBlock_read (rb_buffer b1) readIndex of
               Inl e \<Rightarrow> Inl e
             | Inr s2 \<Rightarrow>
                (case HeapBlock_read (rb_buffer b1) (readIndex - 1) of
                   Inl e \<Rightarrow> Inl e
                 | Inr s3 \<Rightarrow>
                    (case HeapBlock_read (rb_buffer b1) (readIndex - 2) of
                       Inl e \<Rightarrow> Inl e
                     | Inr s4 \<Rightarrow>
                        Inr (CubicInterp s1 s2 s3 s4 (mod1 readOffset) True, b1)))))"

text \<open>\<open>getFromBuffer(interp)\<close>, the overload that returns the sample.\<close>

definition getFromBuffer ::
  "InterpolationType \<Rightarrow> 'a::{plus,minus,scaleR} RingBuffer \<Rightarrow> error + 'a \<times> 'a RingBuffer" where
  "getFromBuffer interp b =
     (case interp of
        noInterp \<Rightarrow> getFromBufferNoInterp b
      | linearInterp \<Rightarrow> getFromBufferLinearInterp b
      | cubicInterp \<Rightarrow> getFromBufferCubicInterp b
      | _ \<Rightarrow> getFromBufferNoInterp b)"

text \<open>
  \<open>getFromBuffer(sample, interp)\<close>, the overload that stores through a pointer: the new
  pointee is returned with the buffer; a null pointer leaves everything as it is.
\<close>

definition getFromBuffer_ptr ::
  "'a::{plus,minus,scaleR} option \<Rightarrow> InterpolationType \<Rightarrow> 'a RingBuffer
     \<Rightarrow> error + 'a option \<times> 'a RingBuffer" where
  "getFromBuffer_ptr sample interp b =
     (case sample of
        None \<Rightarrow> Inr (None, b)
      | Some _ \<Rightarrow>
         (case getFromBuffer interp b of
            Inl e \<Rightarrow> Inl e
          | Inr (v, b1) \<Rightarrow> Inr (Some v, b1)))"

definition pushToBuffer :: "'a option \<Rightarrow> 'a RingBuffer \<Rightarrow> error + 'a RingBuffer" where
  "pushToBuffer input b =
     (case input of
        None \<Rightarrow> Inr b
      | Some x \<Rightarrow>
         (case HeapBlock_write (rb_buffer b) (rb_writeIndex b) x of
            Inl e \<Rightarrow> Inl e
          | Inr hb \<Rightarrow> Inr (incrementWritePointer (b\<lparr>rb_buffer := hb\<rparr>))))"

definition forceIncrementWritePointer :: "'a RingBuffer \<Rightarrow> 'a RingBuffer" where
  "forceIncrementWritePointer b = incrementWritePointer b"

definition getAndPush ::
  "'a::{plus,minus,scaleR} option \<Rightarrow> 'a RingBuffer \<Rightarrow> error + 'a option \<times> 'a RingBuffer" where
  "getAndPush input b =
     (case input of
        None \<Rightarrow> Inr (None, b)
      | Some _ \<Rightarrow>
         (case pushToBuffer input b of
            Inl e \<Rightarrow> Inl e
          | Inr b1 \<Rightarrow> getFromBuffer_ptr input noInterp b1))"

section \<open>Sequencing of fallible steps\<close>

definition bindE :: "error + 'a \<Rightarrow> ('a \<Rightarrow> error + 'b) \<Rightarrow> error + 'b" where
  "bindE m f = (case m of Inl e \<Rightarrow> Inl e | Inr x \<Rightarrow> f x)"

text \<open>A counted \<open>for\<close> loop: the body runs for each index in turn and stops at the first error.\<close>

fun foldE :: "('i \<Rightarrow> 's \<Rightarrow> error + 's) \<Rightarrow> 'i list \<Rightarrow> 's \<Rightarrow> error + 's" where
  "foldE body [] s = Inr s"
| "foldE body (i # is) s = (case body i s of Inl e \<Rightarrow> Inl e | Inr s' \<Rightarrow> foldE body is s')"

text \<open>Unchecked indexing of a \<open>std::vector\<close>: outside the vector it is undefined behaviour.\<close>

definition vec_at :: "'a list \<Rightarrow> nat \<Rightarrow> error + 'a" where
  "vec_at xs i = (if i < length xs then Inr (xs ! i) else Inl OutOfBounds)"

definition vec2_at :: "'a list list \<Rightarrow> nat \<Rightarrow> nat \<Rightarrow> error + 'a" where
  "vec2_at xss ch i = bindE (vec_at xss ch) (\<lambda>row. vec_at row i)"

definition vec2_upd :: "'a list list \<Rightarrow> nat \<Rightarrow> nat \<Rightarrow> 'a \<Rightarrow> 'a list list" where
  "vec2_upd xss ch i x = xss[ch := (xss ! ch)[i := x]]"

section \<open>pa::dsp::Filter\<close>

datatype FilterType = lowpass | highpass

record Filter_Parameters =
  fp_type :: FilterType
  fp_cutoff :: real
  fp_q :: real
  fp_enabled :: bool

record 'a Coefficients =
  co_a0 :: real
  co_a1 :: real
  co_a2 :: real
  co_b1 :: real
  co_b2 :: real
  co_dly1 :: 'a
  co_dly2 :: 'a
  co_k :: real
  co_k2 :: real
  co_n :: real
  co_prevQ :: real
  co_prevCutoff :: real
  co_prevSampleRate :: real

record 'a Filter =
  f_parameters :: Filter_Parameters
  f_sampleRate :: uint
  f_co :: "'a Coefficients"

definition Filter_Parameters_default :: Filter_Parameters where
  "Filter_Parameters_default =
     \<lparr>fp_type = lowpass, fp_cutoff = 500, fp_q = M_SQRT1_2, fp_enabled = True\<rparr>"

definition Filter_init :: "'a::zero Filter" where
  "Filter_init =
     \<lparr>f_parameters = Filter_Parameters_default, f_sampleRate = 0,
      f_co = \<lparr>co_a0 = 1, co_a1 = 0, co_a2 = 0, co_b1 = 0, co_b2 = 0, co_dly1 = 0, co_dly2 = 0,
              co_k = 0, co_k2 = 0, co_n = 0, co_prevQ = 0, co_prevCutoff = 0,
              co_prevSampleRate = 0\<rparr>\<rparr>"

definition Filter_prepare :: "uint \<Rightarrow> 'a Filter \<Rightarrow> 'a Filter" where
  "Filter_prepare newSampleRate f = f\<lparr>f_sampleRate := newSampleRate\<rparr>"

text \<open>The first block of \<open>setCoefficients\<close>: \<open>k\<close> and \<open>k2\<close>, behind \<open>jassert(sampleRate > 0)\<close>.\<close>

definition update_k ::
  "Filter_Parameters \<Rightarrow> uint \<Rightarrow> 'a Coefficients \<Rightarrow> error + 'a Coefficients" where
  "update_k p sampleRate co =
     (if fp_cutoff p \<noteq> co_prevCutoff co \<or> of_uint sampleRate \<noteq> co_prevSampleRate co
      then if sampleRate > 0
           then let kk = FastTan (M_PI * (fp_cutoff p / of_uint sampleRate))
                in Inr (co\<lparr>co_k := kk, co_k2 := kk * kk, co_prevCutoff := fp_cutoff p,
                          co_prevSampleRate := of_uint sampleRate\<rparr>)
           else Inl AssertFailed
      else Inr co)"

text \<open>The second block: \<open>n\<close>, recomputed when \<open>q\<close> differs from the cached one.\<close>

definition update_n :: "Filter_Parameters \<Rightarrow> 'a Coefficients \<Rightarrow> 'a Coefficients" where
  "update_n p co =
     (if fp_q p \<noteq> co_prevQ co
      then co\<lparr>co_n := 1 / (1 + co_k co / fp_q p + co_k2 co), co_prevQ := fp_q p\<rparr>
      else co)"

text \<open>The \<open>switch\<close>: the five coefficients from \<open>k\<close>, \<open>k2\<close>, \<open>n\<close> and \<open>q\<close>.\<close>

definition update_coeffs :: "Filter_Parameters \<Rightarrow> 'a Coefficients \<Rightarrow> 'a Coefficients" where
  "update_coeffs p co =
     (case fp_type p of
        lowpass \<Rightarrow>
          co\<lparr>co_a0 := co_k2 co * co_n co,
             co_a1 := 2 * (co_k2 co * co_n co),
             co_a2 := co_k2 co * co_n co,
             co_b1 := 2 * (co_k2 co - 1) * co_n co,
             co_b2 := (1 - co_k co / fp_q p + co_k2 co) * co_n co\<rparr>
      | highpass \<Rightarrow>
          co\<lparr>co_a0 := co_n co,
             co_a1 := -2 * co_n co,
             co_a2 := co_n co,
             co_b1 := 2 * (co_k2 co - 1) * co_n co,
             co_b2 := (1 - co_k co / fp_q p + co_k2 co) * co_n co\<rparr>)"

definition setCoefficients :: "'a Filter \<Rightarrow> error + 'a Filter" where
  "setCoefficients f =
     (case update_k (f_parameters f) (f_sampleRate f) (f_co f) of
        Inl e \<Rightarrow> Inl e
      | Inr co1 \<Rightarrow>
          Inr (f\<lparr>f_co := update_coeffs (f_parameters f) (update_n (f_parameters f) co1)\<rparr>))"

definition Filter_setParameters :: "Filter_Parameters \<Rightarrow> 'a Filter \<Rightarrow> error + 'a Filter" where
  "Filter_setParameters newParameters f =
     (let f1 = f\<lparr>f_parameters := newParameters\<rparr>
      in if \<not> fp_enabled (f_parameters f1) then Inr f1 else setCoefficients f1)"

text \<open>
  \<open>process\<close>: the guard returns \<open>*input\<close>, which dereferences the pointer also when the guard
  fired because the pointer is null.
\<close>

definition Filter_process ::
  "'a::{plus,minus,scaleR} option \<Rightarrow> 'a Filter \<Rightarrow> error + 'a \<times> 'a Filter" where
  "Filter_process input f =
     (if \<not> fp_enabled (f_parameters f) \<or> input = None
      then (case input of None \<Rightarrow> Inl NullPointer | Some x \<Rightarrow> Inr (x, f))
      else (case input of
              None \<Rightarrow> Inl NullPointer
            | Some x \<Rightarrow>
               let co = f_co f;
                   out = co_a0 co *\<^sub>R x + co_dly1 co;
                   d1 = co_a1 co *\<^sub>R x + co_dly2 co - co_b1 co *\<^sub>R out;
                   d2 = co_a2 co *\<^sub>R x - co_b2 co *\<^sub>R out
               in Inr (out, f\<lparr>f_co := co\<lparr>co_dly1 := d1, co_dly2 := d2\<rparr>\<rparr>)))"

section \<open>pa::dsp::CombFilter\<close>

record CombFilter_Parameters =
  cp_freq :: real
  cp_wet :: real
  cp_feedback :: real
  cp_interpType :: InterpolationType

record 'a CombFilter =
  cf_delay :: "'a RingBuffer"
  cf_parameters :: CombFilter_Parameters

definition CombFilter_init :: "'a CombFilter" where
  "CombFilter_init =
     \<lparr>cf_delay = RingBuffer_init,
      cf_parameters = \<lparr>cp_freq = 0, cp_wet = 0, cp_feedback = 0, cp_interpType = noInterp\<rparr>\<rparr>"

definition CombFilter_prepare :: "uint \<Rightarrow> 'a::zero CombFilter \<Rightarrow> 'a CombFilter" where
  "CombFilter_prepare newSampleRate cf =
     cf\<lparr>cf_delay := setDelayTime 0 0.1 (RingBuffer_prepare newSampleRate newSampleRate (cf_delay cf))\<rparr>"

definition CombFilter_setParameters ::
  "CombFilter_Parameters \<Rightarrow> real \<Rightarrow> 'a CombFilter \<Rightarrow> 'a CombFilter" where
  "CombFilter_setParameters newParams freqOffset cf =
     (let p = newParams\<lparr>cp_feedback := setClamp (cp_feedback newParams) 0 1\<rparr>
      in cf\<lparr>cf_parameters := p,
            cf_delay := setDelayTime (1 / (cp_freq p + freqOffset)) 0.03 (cf_delay cf)\<rparr>)"

text \<open>
  \<open>getDelay\<close> is called with the address of a local, so the model takes the local's value
  and returns its new value.
\<close>

definition getDelay ::
  "'a::{plus,minus,scaleR} \<Rightarrow> 'a CombFilter \<Rightarrow> error + 'a \<times> 'a CombFilter" where
  "getDelay delayed cf =
     (let interp = (case cp_interpType (cf_parameters cf) of
                      noInterp \<Rightarrow> noInterp
                    | linearInterp \<Rightarrow> linearInterp
                    | cubicInterp \<Rightarrow> cubicInterp
                    | _ \<Rightarrow> noInterp)
      in case getFromBuffer_ptr (Some delayed) interp (cf_delay cf) of
           Inl e \<Rightarrow> Inl e
         | Inr (ptr, b) \<Rightarrow>
             Inr (case ptr of None \<Rightarrow> delayed | Some v \<Rightarrow> v, cf\<lparr>cf_delay := b\<rparr>))"

definition CombFilter_process ::
  "'a::{zero,plus,minus,scaleR} option \<Rightarrow> 'a CombFilter \<Rightarrow> error + 'a \<times> 'a CombFilter" where
  "CombFilter_process input cf =
     (case getDelay 0 cf of
        Inl e \<Rightarrow> Inl e
      | Inr (delayed, cf1) \<Rightarrow>
         (case input of
            None \<Rightarrow> Inl NullPointer
          | Some x \<Rightarrow>
             let feedbackLine = x + cp_feedback (cf_parameters cf1) *\<^sub>R delayed
             in case pushToBuffer (Some feedbackLine) (cf_delay cf1) of
                  Inl e \<Rightarrow> Inl e
                | Inr b \<Rightarrow>
                    Inr (x + cp_wet (cf_parameters cf1) *\<^sub>R delayed, cf1\<lparr>cf_delay := b\<rparr>)))"

section \<open>pa::dsp::Reverb\<close>

record Reverb_Parameters =
  rp_damping :: real
  rp_size :: real
  rp_mix :: real
  rp_width :: real
  rp_spread :: real
  rp_numEarlyCombs :: uint
  rp_numLateCombs :: uint

definition Reverb_Parameters_default :: Reverb_Parameters where
  "Reverb_Parameters_default =
     \<lparr>rp_damping = 0, rp_size = 0, rp_mix = 0, rp_width = 0, rp_spread = 0,
      rp_numEarlyCombs = 8, rp_numLateCombs = 4\<rparr>"

subsection \<open>The nested class Comb\<close>

record 'a Comb =
  cb_buffer :: "'a RingBuffer"
  cb_previousValue :: 'a

definition Comb_clear :: "'a::zero Comb \<Rightarrow> 'a Comb" where
  "Comb_clear c = c\<lparr>cb_previousValue := 0, cb_buffer := RingBuffer_clear (cb_buffer c)\<rparr>"

definition Comb_prepare :: "uint \<Rightarrow> 'a::zero Comb \<Rightarrow> 'a Comb" where
  "Comb_prepare newSampleRate c =
     Comb_clear (c\<lparr>cb_buffer := RingBuffer_prepare_seconds 0.1 newSampleRate (cb_buffer c)\<rparr>)"

definition Comb_init :: "'a::zero Comb" where
  "Comb_init = Comb_prepare 44100 \<lparr>cb_buffer = RingBuffer_init, cb_previousValue = 0\<rparr>"

definition SetTime :: "real \<Rightarrow> 'a Comb \<Rightarrow> 'a Comb" where
  "SetTime delayTimeInSeconds c =
     c\<lparr>cb_buffer := setDelayTime (clamp delayTimeInSeconds 0.001 1.0) 0.1 (cb_buffer c)\<rparr>"

definition processEarly ::
  "'a::{plus,minus,scaleR} option \<Rightarrow> real \<Rightarrow> real \<Rightarrow> 'a Comb \<Rightarrow> error + 'a \<times> 'a Comb" where
  "processEarly input damp feed c =
     (case getFromBuffer noInterp (cb_buffer c) of
        Inl e \<Rightarrow> Inl e
      | Inr (delayLine, b1) \<Rightarrow>
         let pv = delayLine + damp *\<^sub>R (cb_previousValue c - delayLine)
         in (case input of
               None \<Rightarrow> Inl NullPointer
             | Some x \<Rightarrow>
                (case pushToBuffer (Some (x + feed *\<^sub>R pv)) b1 of
                   Inl e \<Rightarrow> Inl e
                 | Inr b2 \<Rightarrow> Inr (delayLine, c\<lparr>cb_buffer := b2, cb_previousValue := pv\<rparr>))))"

definition processLate ::
  "'a::{plus,minus,scaleR} option \<Rightarrow> 'a Comb \<Rightarrow> error + 'a \<times> 'a Comb" where
  "processLate input c =
     (case getFromBuffer noInterp (cb_buffer c) of
        Inl e \<Rightarrow> Inl e
      | Inr (delayLine, b1) \<Rightarrow>
         (case input of
            None \<Rightarrow> Inl NullPointer
          | Some x \<Rightarrow>
             (case pushToBuffer (Some (x + 0.5 *\<^sub>R delayLine)) b1 of
                Inl e \<Rightarrow> Inl e
              | Inr b2 \<Rightarrow> Inr (delayLine - x, c\<lparr>cb_buffer := b2\<rparr>))))"

subsection \<open>The reverb\<close>

record 'a Reverb =
  rv_sampleRate :: uint
  rv_preGain :: real
  rv_wet :: real
  rv_dry :: real
  rv_dampingSmooth :: SmoothedValue
  rv_feedbackSmooth :: SmoothedValue
  rv_wet1 :: SmoothedValue
  rv_wet2 :: SmoothedValue
  rv_drySmooth :: SmoothedValue
  rv_parameters :: Reverb_Parameters
  rv_earlyCombs :: "'a Comb list list"
  rv_lateCombs :: "'a Comb list list"
  rv_earlyCombTimes :: "real list"
  rv_lateCombTimes :: "real list"

definition wetGainScale :: real where
  "wetGainScale = 1.2"

definition setCombs :: "'a Reverb \<Rightarrow> error + 'a Reverb" where
  "setCombs rv0 =
     (let spreadAmount = clamp (rp_spread (rv_parameters rv0)) 0 0.01 / 2
      in foldE (\<lambda>ch rv.
           let spread = (if ch = 0 then spreadAmount else - spreadAmount)
           in bindE
                (foldE (\<lambda>i rv.
                   bindE (vec2_at (rv_earlyCombs rv) ch i) (\<lambda>c.
                   bindE (vec_at (rv_earlyCombTimes rv) i) (\<lambda>t.
                   Inr (rv\<lparr>rv_earlyCombs :=
                             vec2_upd (rv_earlyCombs rv) ch i (SetTime (t + spread) c)\<rparr>))))
                   [0..<8] rv)
                (\<lambda>rv1.
                 foldE (\<lambda>i rv.
                   bindE (vec2_at (rv_lateCombs rv) ch i) (\<lambda>c.
                   bindE (vec_at (rv_lateCombTimes rv) i) (\<lambda>t.
                   Inr (rv\<lparr>rv_lateCombs :=
                             vec2_upd (rv_lateCombs rv) ch i (SetTime (t + spread) c)\<rparr>))))
                   [0..<4] rv1))
           [0..<2] rv0)"

definition prepareCombs :: "'a::zero Reverb \<Rightarrow> error + 'a Reverb" where
  "prepareCombs rv0 =
     foldE (\<lambda>ch rv.
       bindE (vec_at (rv_earlyCombs rv) ch) (\<lambda>early.
       bindE (vec_at (rv_lateCombs rv) ch) (\<lambda>late.
       Inr (rv\<lparr>rv_earlyCombs := (rv_earlyCombs rv)[ch := map (Comb_prepare (rv_sampleRate rv)) early],
               rv_lateCombs := (rv_lateCombs rv)[ch := map (Comb_prepare (rv_sampleRate rv)) late]\<rparr>))))
       [0..<2] rv0"

definition Reverb_clear :: "'a::zero Reverb \<Rightarrow> error + 'a Reverb" where
  "Reverb_clear rv0 =
     foldE (\<lambda>ch rv.
       bindE (vec_at (rv_earlyCombs rv) ch) (\<lambda>early.
       bindE (vec_at (rv_lateCombs rv) ch) (\<lambda>late.
       Inr (rv\<lparr>rv_earlyCombs := (rv_earlyCombs rv)[ch := map Comb_clear early],
               rv_lateCombs := (rv_lateCombs rv)[ch := map Comb_clear late]\<rparr>))))
       [0..<2] rv0"

definition Reverb_prepare :: "uint \<Rightarrow> 'a::zero Reverb \<Rightarrow> error + 'a Reverb" where
  "Reverb_prepare newSampleRate rv =
     (let rv1 = (if newSampleRate \<noteq> rv_sampleRate rv \<and> newSampleRate \<noteq> 0
                 then rv\<lparr>rv_sampleRate := newSampleRate\<rparr> else rv)
      in bindE (prepareCombs rv1) (\<lambda>rv2.
           let sr = of_uint (rv_sampleRate rv2)
           in Reverb_clear
                (rv2\<lparr>rv_dampingSmooth := SmoothedValue_reset sr 0.05 (rv_dampingSmooth rv2),
                     rv_feedbackSmooth := SmoothedValue_reset sr 0.05 (rv_feedbackSmooth rv2),
                     rv_drySmooth := SmoothedValue_reset sr 0.05 (rv_drySmooth rv2),
                     rv_wet1 := SmoothedValue_reset sr 0.05 (rv_wet1 rv2),
                     rv_wet2 := SmoothedValue_reset sr 0.05 (rv_wet2 rv2)\<rparr>)))"

text \<open>The constructor; the member initialisers give \<open>preGain = wet = dry = 0\<close>.\<close>

definition Reverb_init :: "error + 'a::zero Reverb" where
  "Reverb_init =
     bindE (setCombs
        \<lparr>rv_sampleRate = 44100, rv_preGain = 0, rv_wet = 0, rv_dry = 0,
         rv_dampingSmooth = SmoothedValue_init 0, rv_feedbackSmooth = SmoothedValue_init 0,
         rv_wet1 = SmoothedValue_init 0, rv_wet2 = SmoothedValue_init 0,
         rv_drySmooth = SmoothedValue_init 0,
         rv_parameters = Reverb_Parameters_default,
         rv_earlyCombs = replicate 2 (replicate 8 Comb_init),
         rv_lateCombs = replicate 2 (replicate 4 Comb_init),
         rv_earlyCombTimes = [0.06, 0.04, 0.02, 0.01, 0.052, 0.036, 0.042, 0.024],
         rv_lateCombTimes = [0.011, 0.054, 0.033, 0.023]\<rparr>)
       (Reverb_prepare 44100)"

definition setMixValues :: "'a Reverb \<Rightarrow> 'a Reverb" where
  "setMixValues rv =
     (let mixAmount = clamp (rp_mix (rv_parameters rv)) 0 1
      in rv\<lparr>rv_dry := 1 - mixAmount, rv_wet := ExpRounder mixAmount 0.8 * 1.55\<rparr>)"

definition setDamping :: "'a Reverb \<Rightarrow> 'a Reverb" where
  "setDamping rv =
     rv\<lparr>rv_dampingSmooth :=
          setTargetValue (rp_damping (rv_parameters rv) * 0.9) (rv_dampingSmooth rv),
        rv_feedbackSmooth :=
          setTargetValue (rp_size (rv_parameters rv) * 0.78 + 0.2) (rv_feedbackSmooth rv)\<rparr>"

definition Reverb_setParameters ::
  "Reverb_Parameters \<Rightarrow> 'a Reverb \<Rightarrow> error + 'a Reverb" where
  "Reverb_setParameters newParameters rv =
     (let oldMix = rp_mix (rv_parameters rv);
          oldSpread = rp_spread (rv_parameters rv);
          oldDamp = rp_damping (rv_parameters rv);
          oldSize = rp_size (rv_parameters rv);
          rv1 = rv\<lparr>rv_parameters := newParameters\<rparr>;
          rv2 = (if rp_mix (rv_parameters rv1) \<noteq> oldMix then setMixValues rv1 else rv1);
          p = rv_parameters rv2;
          rv3 = rv2\<lparr>rv_preGain := 0.1 / of_uint (rp_numEarlyCombs p + rp_numLateCombs p),
                    rv_drySmooth := setTargetValue (rv_dry rv2) (rv_drySmooth rv2),
                    rv_wet1 :=
                      setTargetValue (wetGainScale * rv_wet rv2 * (1 + rp_width p)) (rv_wet1 rv2),
                    rv_wet2 :=
                      setTargetValue (wetGainScale * rv_wet rv2 * (1 - rp_width p)) (rv_wet2 rv2)\<rparr>
      in bindE (if rp_spread p \<noteq> oldSpread then setCombs rv3 else Inr rv3) (\<lambda>rv4.
           Inr (if rp_damping p \<noteq> oldDamp \<or> rp_size p \<noteq> oldSize then setDamping rv4 else rv4)))"

definition setEarlyCombTime :: "real \<Rightarrow> uint \<Rightarrow> 'a Reverb \<Rightarrow> error + 'a Reverb" where
  "setEarlyCombTime newDelayTime combIndex rv =
     (let i = unat (clamp combIndex 0 7)
      in if i < length (rv_earlyCombTimes rv)
         then setCombs (rv\<lparr>rv_earlyCombTimes := (rv_earlyCombTimes rv)[i := newDelayTime]\<rparr>)
         else Inl OutOfBounds)"

definition setLateCombTime :: "real \<Rightarrow> uint \<Rightarrow> 'a Reverb \<Rightarrow> error + 'a Reverb" where
  "setLateCombTime newDelayTime combIndex rv =
     (let i = unat (clamp combIndex 0 3)
      in if i < length (rv_lateCombTimes rv)
         then setCombs (rv\<lparr>rv_lateCombTimes := (rv_lateCombTimes rv)[i := newDelayTime]\<rparr>)
         else Inl OutOfBounds)"

text \<open>The first loop of \<open>process\<close>: the early combs of both channels, summed.\<close>

definition early_step ::
  "'a::{plus,minus,scaleR} \<Rightarrow> real \<Rightarrow> real \<Rightarrow> nat \<Rightarrow> 'a Comb list list \<times> 'a \<times> 'a
     \<Rightarrow> error + 'a Comb list list \<times> 'a \<times> 'a" where
  "early_step input damp feed j s =
     (case s of (combs, outL, outR) \<Rightarrow>
        bindE (vec2_at combs 0 j) (\<lambda>c0.
        bindE (processEarly (Some input) damp feed c0) (\<lambda>(d0, c0').
        let combs1 = vec2_upd combs 0 j c0'
        in bindE (vec2_at combs1 1 j) (\<lambda>c1.
           bindE (processEarly (Some input) damp feed c1) (\<lambda>(d1, c1').
           Inr (vec2_upd combs1 1 j c1', outL + d0, outR + d1))))))"

text \<open>The second loop: the late combs of each channel, in series.\<close>

definition late_step ::
  "nat \<Rightarrow> 'a::{plus,minus,scaleR} Comb list list \<times> 'a \<times> 'a
     \<Rightarrow> error + 'a Comb list list \<times> 'a \<times> 'a" where
  "late_step j s =
     (case s of (combs, outL, outR) \<Rightarrow>
        bindE (vec2_at combs 0 j) (\<lambda>c0.
        bindE (processLate (Some outL) c0) (\<lambda>(outL', c0').
        let combs1 = vec2_upd combs 0 j c0'
        in bindE (vec2_at combs1 1 j) (\<lambda>c1.
           bindE (processLate (Some outR) c1) (\<lambda>(outR', c1').
           Inr (vec2_upd combs1 1 j c1', outL', outR'))))))"

text \<open>\<open>process(left, right)\<close>: the new pointees are returned with the reverb.\<close>

definition Reverb_process ::
  "'a::{zero,plus,minus,scaleR} option \<Rightarrow> 'a option \<Rightarrow> 'a Reverb
     \<Rightarrow> error + ('a option \<times> 'a option) \<times> 'a Reverb" where
  "Reverb_process left right rv =
     (case (left, right) of
        (Some l, Some r) \<Rightarrow>
          (let input = rv_preGain rv *\<^sub>R (l + r);
               (damp, ds) = getNextValue (rv_dampingSmooth rv);
               (feed, fs) = getNextValue (rv_feedbackSmooth rv);
               p = rv_parameters rv
           in bindE (foldE (early_step input damp feed) [0..<unat (rp_numEarlyCombs p)]
                       (rv_earlyCombs rv, 0, 0)) (\<lambda>(early, outL, outR).
              bindE (foldE late_step [0..<unat (rp_numLateCombs p)]
                       (rv_lateCombs rv, outL, outR)) (\<lambda>(late, outL', outR').
              let (d, drs) = getNextValue (rv_drySmooth rv);
                  (w1, w1s) = getNextValue (rv_wet1 rv);
                  (w2, w2s) = getNextValue (rv_wet2 rv)
              in Inr ((Some (d *\<^sub>R l + w1 *\<^sub>R outL' + w2 *\<^sub>R outR'),
                       Some (d *\<^sub>R r + w1 *\<^sub>R outR' + w2 *\<^sub>R outL')),
                      rv\<lparr>rv_dampingSmooth := ds, rv_feedbackSmooth := fs,
                         rv_earlyCombs := early, rv_lateCombs := late,
                         rv_drySmooth := drs, rv_wet1 := w1s, rv_wet2 := w2s\<rparr>))))
      | _ \<Rightarrow> Inr ((left, right), rv))"

section \<open>Samples that may be NaN\<close>

text \<open>
  A sample of the signal chain: a number, or the NaN of IEEE 754 arithmetic. An operation
  with a NaN operand yields NaN, and every comparison with a NaN is false. The gains and
  coefficients that multiply a sample are numbers.
\<close>

datatype sample = Num real | NaN

instantiation sample :: "{zero, plus, minus, scaleR, ord}"
begin

definition zero_sample_def: "(0 :: sample) = Num 0"

definition plus_sample_def:
  "x + y = (case x of NaN \<Rightarrow> NaN | Num a \<Rightarrow> (case y of NaN \<Rightarrow> NaN | Num b \<Rightarrow> Num (a + b)))"

definition minus_sample_def:
  "x - y = (case x of NaN \<Rightarrow> NaN | Num a \<Rightarrow> (case y of NaN \<Rightarrow> NaN | Num b \<Rightarrow> Num (a - b)))"

definition scaleR_sample_def:
  "r *\<^sub>R x = (case x of NaN \<Rightarrow> NaN | Num a \<Rightarrow> Num (r * a))"

definition less_sample_def:
  "x < y = (case x of NaN \<Rightarrow> False | Num a \<Rightarrow> (case y of NaN \<Rightarrow> False | Num b \<Rightarrow> a < b))"

definition less_eq_sample_def:
  "x \<le> y = (case x of NaN \<Rightarrow> False | Num a \<Rightarrow> (case y of NaN \<Rightarrow> False | Num b \<Rightarrow> a \<le> b))"

instance ..

end

section \<open>RiserProcessor\<close>

text \<open>
  The signal chain works on samples that may be NaN. The three \<open>std::array\<close>s of two
  processors are pairs: index 0 is \<open>fst\<close>, index 1 is \<open>snd\<close>.
\<close>

record RiserProcessor =
  ri_masterAmount :: real
  ri_reverbAmount :: real
  ri_filterAmount :: real
  ri_flangerAmount :: real
  ri_flanger :: "sample CombFilter \<times> sample CombFilter"
  ri_lowpass :: "sample Filter \<times> sample Filter"
  ri_highpass :: "sample Filter \<times> sample Filter"
  ri_reverb :: "sample Reverb"
  ri_flangerParams :: CombFilter_Parameters
  ri_lowpassParams :: Filter_Parameters
  ri_highpassParams :: Filter_Parameters
  ri_reverbParams :: Reverb_Parameters

text \<open>
  One round of the loop of \<open>process\<close>, for sample \<open>i\<close> of the two arrays: comb, lowpass,
  highpass, reverb, hard clip, write back.
\<close>

definition process_sample ::
  "nat \<Rightarrow> sample list \<times> sample list \<times> RiserProcessor
     \<Rightarrow> error + sample list \<times> sample list \<times> RiserProcessor" where
  "process_sample i s =
     (case s of (left, right, rp) \<Rightarrow>
        bindE (vec_at left i) (\<lambda>inL.
        bindE (vec_at right i) (\<lambda>inR.
        bindE (CombFilter_process (Some inL) (fst (ri_flanger rp))) (\<lambda>(fL, fl0).
        bindE (CombFilter_process (Some inR) (snd (ri_flanger rp))) (\<lambda>(fR, fl1).
        bindE (Filter_process (Some fL) (fst (ri_lowpass rp))) (\<lambda>(lL, lp0).
        bindE (Filter_process (Some fR) (snd (ri_lowpass rp))) (\<lambda>(lR, lp1).
        bindE (Filter_process (Some lL) (fst (ri_highpass rp))) (\<lambda>(hL, hp0).
        bindE (Filter_process (Some lR) (snd (ri_highpass rp))) (\<lambda>(hR, hp1).
        bindE (Reverb_process (Some hL) (Some hR) (ri_reverb rp)) (\<lambda>((pL, pR), rv).
        let ceil = 1.2;
            outL = setClamp (case pL of None \<Rightarrow> hL | Some v \<Rightarrow> v) (Num (- ceil)) (Num ceil);
            outR = setClamp (case pR of None \<Rightarrow> hR | Some v \<Rightarrow> v) (Num (- ceil)) (Num ceil)
        in Inr (left[i := outL], right[i := outR],
                rp\<lparr>ri_flanger := (fl0, fl1), ri_lowpass := (lp0, lp1),
                   ri_highpass := (hp0, hp1), ri_reverb := rv\<rparr>)))))))))))"

text \<open>\<open>process(left, right, numSamples)\<close>: the arrays are returned with the processor.\<close>

definition RiserProcessor_process ::
  "sample list option \<Rightarrow> sample list option \<Rightarrow> int \<Rightarrow> RiserProcessor
     \<Rightarrow> error + sample list option \<times> sample list option \<times> RiserProcessor" where
  "RiserProcessor_process left right numSamples rp =
     (case (left, right) of
        (Some l, Some r) \<Rightarrow>
          if numSamples \<le> 0 then Inr (left, right, rp)
          else bindE (foldE process_sample [0..<nat numSamples] (l, r, rp))
                 (\<lambda>(l', r', rp'). Inr (Some l', Some r', rp'))
      | _ \<Rightarrow> Inr (left, right, rp))"

section \<open>Scenarios used by the properties\<close>

text \<open>Two calls of \<open>setParameters\<close> in a row on one filter.\<close>

definition Filter_set2 ::
  "Filter_Parameters \<Rightarrow> Filter_Parameters \<Rightarrow> real Filter \<Rightarrow> error + real Filter" where
  "Filter_set2 p1 p2 f = bindE (Filter_setParameters p1 f) (Filter_setParameters p2)"

text \<open>
  Unity gain at DC, \<open>(a0 + a1 + a2) / (1 + b1 + b2) = 1\<close>, written without the division.
\<close>

definition dc_unity :: "real Filter \<Rightarrow> bool" where
  "dc_unity f =
     (co_a0 (f_co f) + co_a1 (f_co f) + co_a2 (f_co f) = 1 + co_b1 (f_co f) + co_b2 (f_co f))"

text \<open>A filter prepared at 44.1 kHz whose default parameters have been set once.\<close>

definition Filter_example :: "real Filter" where
  "Filter_example =
     projr (Filter_setParameters Filter_Parameters_default (Filter_prepare 44100 Filter_init))"

subsection \<open>Ring buffer: invariant, operations, push-then-read\<close>

text \<open>The write index lies inside the buffer.\<close>

definition writeIndex_inv :: "real RingBuffer \<Rightarrow> bool" where
  "writeIndex_inv b = (rb_writeIndex b < rb_size b)"

text \<open>The public operations of the ring buffer, as one step function.\<close>

datatype RingBuffer_op =
    Op_pushToBuffer "real option"
  | Op_getAndPush "real option"
  | Op_forceIncrementWritePointer
  | Op_getFromBuffer InterpolationType
  | Op_getFromBuffer_ptr "real option" InterpolationType
  | Op_prepare uint uint
  | Op_prepare_seconds real uint
  | Op_setDelayTime real real
  | Op_clear

fun RingBuffer_apply :: "RingBuffer_op \<Rightarrow> real RingBuffer \<Rightarrow> error + real RingBuffer" where
  "RingBuffer_apply (Op_pushToBuffer input) b = pushToBuffer input b"
| "RingBuffer_apply (Op_getAndPush input) b = map_sum id snd (getAndPush input b)"
| "RingBuffer_apply Op_forceIncrementWritePointer b = Inr (forceIncrementWritePointer b)"
| "RingBuffer_apply (Op_getFromBuffer interp) b = map_sum id snd (getFromBuffer interp b)"
| "RingBuffer_apply (Op_getFromBuffer_ptr sample interp) b =
     map_sum id snd (getFromBuffer_ptr sample interp b)"
| "RingBuffer_apply (Op_prepare n sr) b = Inr (RingBuffer_prepare n sr b)"
| "RingBuffer_apply (Op_prepare_seconds secs sr) b = Inr (RingBuffer_prepare_seconds secs sr b)"
| "RingBuffer_apply (Op_setDelayTime t smoothTime) b = Inr (setDelayTime t smoothTime b)"
| "RingBuffer_apply Op_clear b = Inr (RingBuffer_clear b)"

text \<open>
  A well-formed buffer: the block has the size the buffer records, and the write index is
  inside it.
\<close>

definition rb_ok :: "'a RingBuffer \<Rightarrow> bool" where
  "rb_ok b = (hb_size (rb_buffer b) = rb_size b
              \<and> length (hb_data (rb_buffer b)) = unat (rb_size b)
              \<and> rb_writeIndex b < rb_size b)"

text \<open>Pushing a sequence of samples, one \<open>pushToBuffer\<close> each.\<close>

definition push_all :: "real list \<Rightarrow> real RingBuffer \<Rightarrow> error + real RingBuffer" where
  "push_all s b = foldE (\<lambda>x b. pushToBuffer (Some x) b) s b"

text \<open>A freshly constructed buffer, prepared and then filled with \<open>s\<close>.\<close>

definition pushed :: "uint \<Rightarrow> uint \<Rightarrow> real list \<Rightarrow> error + real RingBuffer" where
  "pushed n R s = push_all s (RingBuffer_prepare n R RingBuffer_init)"

definition pushed_writeIndex :: "uint \<Rightarrow> uint \<Rightarrow> real list \<Rightarrow> error + uint" where
  "pushed_writeIndex n R s = map_sum id rb_writeIndex (pushed n R s)"

text \<open>
  The sample read from that buffer after \<open>setDelayTime(t, smoothTime)\<close>.
\<close>

definition delayed_read ::
  "InterpolationType \<Rightarrow> uint \<Rightarrow> uint \<Rightarrow> real list \<Rightarrow> real \<Rightarrow> real \<Rightarrow> error + real" where
  "delayed_read interp n R s t smoothTime =
     bindE (pushed n R s) (\<lambda>b.
     bindE (getFromBuffer interp (setDelayTime t smoothTime b)) (\<lambda>(v, b'). Inr v))"

text \<open>
  A comb filter with a buffer of one sample: prepared at rate 1, parameters set (feedback 2
  is clamped to 1), one sample 3 processed.
\<close>

definition CombFilter_example :: "real CombFilter" where
  "CombFilter_example =
     snd (projr (CombFilter_process (Some 3)
       (CombFilter_setParameters
          \<lparr>cp_freq = 1, cp_wet = 1 / 2, cp_feedback = 2, cp_interpType = noInterp\<rparr> 0
          (CombFilter_prepare 1 CombFilter_init)))) "

subsection \<open>Reverb and signal chain: scenarios\<close>

text \<open>
  A comb that holds only silence in a well-formed buffer and whose next read has a read
  offset of zero samples.
\<close>

definition quiet :: "'a::zero Comb \<Rightarrow> bool" where
  "quiet c =
     (rb_ok (cb_buffer c)
      \<and> set (hb_data (rb_buffer (cb_buffer c))) \<subseteq> {0}
      \<and> to_uint (float32 (float32 (of_uint (rb_sampleRate (cb_buffer c)))
                             * fst (getNextValue (rb_delayTime (cb_buffer c))))) = 0)"

text \<open>
  A bank of two channels of combs (\<open>earlyCombs\<close> or \<open>lateCombs\<close>) whose first \<open>n\<close> combs per
  channel exist and are quiet.
\<close>

definition quiet_bank :: "nat \<Rightarrow> 'a::zero Comb list list \<Rightarrow> bool" where
  "quiet_bank n combs =
     (length combs = 2 \<and> n \<le> length (combs ! 0) \<and> n \<le> length (combs ! 1)
      \<and> (\<forall>j<n. quiet (combs ! 0 ! j) \<and> quiet (combs ! 1 ! j)))"

text \<open>
  What \<open>process(l, r)\<close> stores through its two pointers on a newly constructed reverb whose
  parameters have been set once, to the default parameters (\<open>mix = 0\<close>).
\<close>

definition Reverb_fresh_mix0 :: "real \<Rightarrow> real \<Rightarrow> error + real option \<times> real option" where
  "Reverb_fresh_mix0 l r =
     bindE Reverb_init (\<lambda>rv.
     bindE (Reverb_setParameters Reverb_Parameters_default rv) (\<lambda>rv1.
     bindE (Reverb_process (Some l) (Some r) rv1) (\<lambda>(out, rv2). Inr out)))"

text \<open>The range of the hard clip at the end of the signal chain.\<close>

definition within_clip :: "sample \<Rightarrow> bool" where
  "within_clip v = (Num (- 1.2) \<le> v \<and> v \<le> Num 1.2)"

text \<open>
  A reverb constructed, prepared at a sample rate of 10 Hz, and set to \<open>mix = 1/2\<close> and then
  to the default parameters (\<open>mix = 0\<close>). At this rate the smoothed gains have no ramp.
\<close>

definition Reverb_example :: "'a::zero Reverb" where
  "Reverb_example =
     projr (bindE Reverb_init (\<lambda>rv.
            bindE (Reverb_prepare 10 rv) (\<lambda>rv1.
            bindE (Reverb_setParameters (Reverb_Parameters_default\<lparr>rp_mix := 1 / 2\<rparr>) rv1)
              (Reverb_setParameters Reverb_Parameters_default))))"

text \<open>A comb of the constructor, with delay time \<open>t\<close>, after that \<open>prepare\<close>.\<close>

definition comb10 :: "real \<Rightarrow> 'a::zero Comb" where
  "comb10 t = Comb_clear (Comb_prepare 10 (SetTime t Comb_init))"

text \<open>
  A comb filter as above, on samples that may be NaN: a buffer of one sample, parameters
  set, the sample 3 processed.
\<close>

definition flanger_example :: "sample CombFilter" where
  "flanger_example =
     snd (projr (CombFilter_process (Some (Num 3))
       (CombFilter_setParameters
          \<lparr>cp_freq = 1, cp_wet = 1 / 2, cp_feedback = 2, cp_interpType = noInterp\<rparr> 0
          (CombFilter_prepare 1 CombFilter_init))))"

text \<open>
  A signal chain made of that comb filter, newly constructed filters and the reverb above.
\<close>

definition RiserProcessor_example :: RiserProcessor where
  "RiserProcessor_example =
     \<lparr>ri_masterAmount = 0, ri_reverbAmount = 0.65, ri_filterAmount = 1, ri_flangerAmount = 0.7,
      ri_flanger = (flanger_example, flanger_example),
      ri_lowpass = (Filter_init, Filter_init),
      ri_highpass = (Filter_init, Filter_init),
      ri_reverb = Reverb_example,
      ri_flangerParams = cf_parameters flanger_example,
      ri_lowpassParams = Filter_Parameters_default,
      ri_highpassParams = Filter_Parameters_default,
      ri_reverbParams = Reverb_Parameters_default\<rparr>"

text \<open>The two arrays that \<open>process(left, right, numSamples)\<close> leaves behind.\<close>

definition processed ::
  "sample list \<Rightarrow> sample list \<Rightarrow> int \<Rightarrow> RiserProcessor
     \<Rightarrow> error + sample list option \<times> sample list option" where
  "processed left right numSamples rp =
     map_sum id (\<lambda>(l, r, rp'). (l, r))
       (RiserProcessor_process (Some left) (Some right) numSamples rp)"

section \<open>Rounding to single precision\<close>

lemma floor_log2_bounds:
  "0 < n \<Longrightarrow> 2 ^ floor_log2 n \<le> n \<and> n < 2 ^ Suc (floor_log2 n)"
proof (induction n rule: floor_log2.induct)
  case (1 n)
  show ?case
  proof (cases "n < 2")
    case True
    with 1(2) show ?thesis by (simp add: floor_log2.simps [of n])
  next
    case False
    then have "0 < n div 2" by simp
    from 1(1) [OF False this] have "2 ^ floor_log2 (n div 2) \<le> n div 2"
      and "n div 2 < 2 ^ Suc (floor_log2 (n div 2))" by simp_all
    then have "2 * 2 ^ floor_log2 (n div 2) \<le> n" and "n < 2 * 2 ^ Suc (floor_log2 (n div 2))"
      by linarith+
    with False show ?thesis by (simp add: floor_log2.simps [of n])
  qed
qed

lemma floor_log2_eq:
  assumes "2 ^ e \<le> n" and "n < 2 ^ Suc e"
  shows "floor_log2 n = e"
proof -
  have n: "0 < n" using assms(1) by (metis less_le_trans zero_less_numeral zero_less_power)
  from floor_log2_bounds [OF n] have a: "2 ^ floor_log2 n \<le> n" and b: "n < 2 ^ Suc (floor_log2 n)"
    by simp_all
  have "(2::nat) ^ e < 2 ^ Suc (floor_log2 n)" using assms(1) b by linarith
  then have 1: "e < Suc (floor_log2 n)" by (simp only: power_strict_increasing_iff one_less_numeral_iff semiring_norm)
  have "(2::nat) ^ floor_log2 n < 2 ^ Suc e" using assms(2) a by linarith
  then have 2: "floor_log2 n < Suc e" by (simp only: power_strict_increasing_iff one_less_numeral_iff semiring_norm)
  from 1 2 show ?thesis by simp
qed

lemma floor_log2_small: "n < 2 \<Longrightarrow> floor_log2 n = 0"
  by (simp add: floor_log2.simps [of n])

lemma round_to_even_error: "\<bar>of_int (round_to_even x) - x\<bar> \<le> 1 / 2"
  unfolding round_to_even_def Let_def by (auto; linarith)

lemma round_to_even_nonneg: "0 \<le> x \<Longrightarrow> 0 \<le> round_to_even x"
  unfolding round_to_even_def Let_def by (auto; linarith)

lemma round_to_even_of_int [simp]: "round_to_even (of_int k) = k"
  by (simp add: round_to_even_def)

lemma float32_0 [simp]: "float32 0 = 0"
  by (simp add: float32_def)

lemma float32_nonneg: "0 \<le> x \<Longrightarrow> 0 \<le> float32 x"
  unfolding float32_def Let_def
  by (intro mult_nonneg_nonneg divide_nonneg_nonneg) (simp_all add: round_to_even_nonneg)

text \<open>The rounding in a known binade: \<open>p\<close> is the exponent of the spacing, in units.\<close>

lemma float32_normal:
  assumes "2 ^ (p + 23) \<le> \<bar>x\<bar> * 2 ^ 149" and "\<bar>x\<bar> * 2 ^ 149 < 2 ^ (p + 24)"
  shows "float32 x = sgn x * (of_int (round_to_even (\<bar>x\<bar> * 2 ^ 149 / 2 ^ p)) * 2 ^ p / 2 ^ 149)"
proof -
  define y where "y = \<bar>x\<bar> * 2 ^ 149"
  have y0: "0 \<le> y" by (simp add: y_def)
  have "(2::real) ^ (p + 23) = of_int (2 ^ (p + 23))" by simp
  with assms(1) have "of_int (2 ^ (p + 23)) \<le> y" by (simp only: y_def)
  then have lo: "2 ^ (p + 23) \<le> \<lfloor>y\<rfloor>" by (simp only: le_floor_iff)
  have "(2::real) ^ (p + 24) = of_int (2 ^ (p + 24))" by simp
  with assms(2) have "y < of_int (2 ^ (p + 24))" by (simp only: y_def)
  then have hi: "\<lfloor>y\<rfloor> < 2 ^ (p + 24)" by (simp only: floor_less_iff)
  have lo': "2 ^ (p + 23) \<le> nat \<lfloor>y\<rfloor>" using lo by (simp add: le_nat_iff)
  have hi': "nat \<lfloor>y\<rfloor> < 2 ^ Suc (p + 23)" using hi lo by (simp add: nat_less_iff ac_simps)
  have "floor_log2 (nat \<lfloor>y\<rfloor>) = p + 23" by (rule floor_log2_eq [OF lo' hi'])
  then show ?thesis unfolding float32_def Let_def y_def [symmetric] by (simp only:) simp
qed

lemma float32_error:
  "\<bar>float32 x - x\<bar> \<le> \<bar>x\<bar> / 2 ^ 24 + 1 / 2 ^ 150"
proof -
  define y where "y = \<bar>x\<bar> * 2 ^ 149"
  define p where "p = floor_log2 (nat \<lfloor>y\<rfloor>) - 23"
  define m where "m = round_to_even (y / 2 ^ p)"
  have y0: "0 \<le> y" by (simp add: y_def)
  have f: "float32 x = sgn x * (of_int m * 2 ^ p / 2 ^ 149)"
    by (simp add: float32_def y_def p_def m_def Let_def)
  have x: "x = sgn x * (y / 2 ^ 149)" by (simp add: y_def sgn_mult_abs)
  have "float32 x - x = sgn x * ((of_int m * 2 ^ p - y) / 2 ^ 149)"
    by (subst x, subst f) (simp add: algebra_simps diff_divide_distrib sgn_mult_abs)
  then have "\<bar>float32 x - x\<bar> = \<bar>sgn x * ((of_int m * 2 ^ p - y) / 2 ^ 149)\<bar>"
    by (simp only:)
  also have "\<dots> = \<bar>sgn x\<bar> * (\<bar>of_int m * 2 ^ p - y\<bar> / 2 ^ 149)"
    by (simp only: abs_mult abs_divide power_abs abs_numeral)
  also have "\<dots> \<le> 1 * (\<bar>of_int m * 2 ^ p - y\<bar> / 2 ^ 149)"
    by (intro mult_right_mono) (simp_all add: abs_sgn_eq)
  finally have e1: "\<bar>float32 x - x\<bar> \<le> \<bar>of_int m * 2 ^ p - y\<bar> / 2 ^ 149" by simp
  have "\<bar>of_int m - y / 2 ^ p\<bar> \<le> 1 / 2" unfolding m_def by (rule round_to_even_error)
  then have "\<bar>of_int m - y / 2 ^ p\<bar> * 2 ^ p \<le> 1 / 2 * 2 ^ p"
    by (intro mult_right_mono) simp_all
  moreover have "\<bar>of_int m - y / 2 ^ p\<bar> * 2 ^ p = \<bar>of_int m * 2 ^ p - y\<bar>"
  proof -
    have "\<bar>of_int m - y / 2 ^ p\<bar> * 2 ^ p = \<bar>(of_int m - y / 2 ^ p) * 2 ^ p\<bar>"
      by (simp add: abs_mult)
    also have "(of_int m - y / 2 ^ p) * 2 ^ p = of_int m * 2 ^ p - y"
      by (simp add: algebra_simps)
    finally show ?thesis .
  qed
  ultimately have e2: "\<bar>of_int m * 2 ^ p - y\<bar> \<le> 2 ^ p / 2" by simp
  have e3: "(2::real) ^ p / 2 \<le> y / 2 ^ 24 + 1 / 2"
  proof (cases "p = 0")
    case True
    then show ?thesis using y0 by simp
  next
    case False
    then have pp: "floor_log2 (nat \<lfloor>y\<rfloor>) = p + 23" by (simp add: p_def)
    have pos: "0 < nat \<lfloor>y\<rfloor>"
    proof (rule ccontr)
      assume "\<not> 0 < nat \<lfloor>y\<rfloor>"
      then have "nat \<lfloor>y\<rfloor> < 2" by simp
      then have "floor_log2 (nat \<lfloor>y\<rfloor>) = 0" by (rule floor_log2_small)
      with pp show False by simp
    qed
    from floor_log2_bounds [OF pos] pp have "2 ^ (p + 23) \<le> nat \<lfloor>y\<rfloor>" by simp
    then have "real (2 ^ (p + 23)) \<le> real (nat \<lfloor>y\<rfloor>)" by (simp only: of_nat_le_iff)
    also have "real (nat \<lfloor>y\<rfloor>) \<le> y" using y0 by simp
    finally have "(2::real) ^ (p + 23) \<le> y" by simp
    then have "(2::real) ^ p * 2 ^ 23 \<le> y" by (simp add: power_add)
    then have "(2::real) ^ p / 2 \<le> y / 2 ^ 24" by simp
    then show ?thesis by simp
  qed
  from e2 e3 have "\<bar>of_int m * 2 ^ p - y\<bar> \<le> y / 2 ^ 24 + 1 / 2" by simp
  then have "\<bar>of_int m * 2 ^ p - y\<bar> / 2 ^ 149 \<le> (y / 2 ^ 24 + 1 / 2) / 2 ^ 149"
    by (intro divide_right_mono) simp_all
  also have "\<dots> = \<bar>x\<bar> / 2 ^ 24 + 1 / 2 ^ 150"
    by (simp add: y_def add_divide_distrib)
  finally show ?thesis using e1 by simp
qed

lemma float32_below_one:
  assumes "0 \<le> x" and "x \<le> 9 / 10"
  shows "0 \<le> float32 x \<and> float32 x < 1"
proof -
  from float32_error [of x] assms have "float32 x - x \<le> x / 2 ^ 24 + 1 / 2 ^ 150"
    by simp
  with assms have "float32 x \<le> 9 / 10 + (9 / 10) / 2 ^ 24 + 1 / 2 ^ 150" by simp
  then have "float32 x < 1" by simp
  with float32_nonneg [OF assms(1)] show ?thesis by simp
qed

text \<open>The values that the examples below pass through the rounding.\<close>

lemma float32_exact:
  "float32 1 = 1" "float32 4 = 4" "float32 10 = 10" "float32 16 = 16" "float32 100 = 100"
  "float32 4410 = 4410" "float32 44100 = 44100" "float32 (1 / 2) = 1 / 2"
  "float32 (3 / 2) = 3 / 2"
  using float32_normal [of 126 1] float32_normal [of 128 4] float32_normal [of 129 10]
    float32_normal [of 130 16] float32_normal [of 132 100] float32_normal [of 138 4410]
    float32_normal [of 141 44100] float32_normal [of 125 "1 / 2"] float32_normal [of 126 "3 / 2"]
  by (simp_all add: round_to_even_def)

lemma float32_inexact:
  "float32 (1 / 10) = 13421773 / 134217728" "float32 (1 / 25) = 5368709 / 134217728"
  "float32 (1 / 50) = 5368709 / 268435456" "float32 (1 / 5) = 13421773 / 67108864"
  "float32 (4 / 11025) = 6233059 / 17179869184" "float32 (1 / 6300) = 10907853 / 68719476736"
  using float32_normal [of 122 "1 / 10"] float32_normal [of 121 "1 / 25"]
    float32_normal [of 120 "1 / 50"] float32_normal [of 123 "1 / 5"]
    float32_normal [of 114 "4 / 11025"] float32_normal [of 113 "1 / 6300"]
  by (simp_all add: round_to_even_def)

text \<open>
  Two products \<open>R (k/R)\<close> in single precision: \<open>100 (2/100)\<close> comes back as 2, and
  \<open>44100 (7/44100)\<close> comes back below 7.
\<close>

lemma float32_products:
  "float32 (134217725 / 67108864) = 2"
  "float32 (120259079325 / 17179869184) = 14680063 / 2097152"
  using float32_normal [of 126 "134217725 / 67108864"]
    float32_normal [of 128 "120259079325 / 17179869184"]
  by (simp_all add: round_to_even_def)

section \<open>The biquad filter\<close>

lemmas Filter_defs = Filter_setParameters_def setCoefficients_def update_k_def update_n_def
  update_coeffs_def Filter_prepare_def Filter_init_def Filter_Parameters_default_def

lemma of_uint_44100: "of_uint 44100 = 44100"
  by (simp add: of_uint_def)

text \<open>The tangent approximation at the two cutoffs used below, at 44.1 kHz.\<close>

lemma FastTan_500:
  "FastTan (M_PI * 5 / 441) =
     1095690806148399939148528028261708722015705719346964841352851620373884788567433793137830176820596351852172099771680986024678292443193125279507600507966623657 /
     30709635402715975935921862697606446565950729712104555918616371426863213570439693720857699489552941723891103154836344675780351127321119043150000000000000000000"
  by (simp add: FastTan_def WrapPi_def fmod_def to_int_def M_PI_def Let_def)

lemma FastTan_1000:
  "FastTan (M_PI * 10 / 441) =
     35528152702359518523539489603582836836481857063116130665478469892150148560479379002677005682598837612447033500435279265644003890233445843068627683220474255857083 /
     497611991570613142823236070101097313167588026786610662667463128633604476275811311988080001799927673896520064785132770720261320692121204632836600000000000000000000"
  by (simp add: FastTan_def WrapPi_def fmod_def to_int_def M_PI_def Let_def)

subsection \<open>Pass-through\<close>

lemma Filter_process_disabled_passthrough:
  "\<not> fp_enabled (f_parameters f) \<Longrightarrow> Filter_process (Some x) f = Inr (x, f)"
  by (simp add: Filter_process_def)

text \<open>
  C2: a disabled filter, or a null input, makes \<open>process\<close> return the input unchanged
  without touching \<open>dly1\<close> and \<open>dly2\<close>. For a disabled filter and a sample this is
  \<open>Filter_process_disabled_passthrough\<close>. For a null input the guard that tests for
  \<open>nullptr\<close> returns \<open>*input\<close>: the code dereferences the null pointer, for every filter
  state.
\<close>

theorem Filter_process_null_dereferences:
  "Filter_process None (f :: real Filter) = Inl NullPointer"
  by (simp add: Filter_process_def)

theorem Filter_process_null_dereferences_witness:
  "Filter_process None (Filter_init :: real Filter) = Inl NullPointer"
  by (rule Filter_process_null_dereferences)

subsection \<open>Sample rate of zero\<close>

lemma RingBuffer_prepare_sampleRate:
  "rb_sampleRate (RingBuffer_prepare n sr b) = (if sr = 0 then 1 else sr)"
  by (simp add: RingBuffer_prepare_def RingBuffer_clear_def Let_def)

lemma RingBuffer_prepare_sampleRate_nonzero:
  "rb_sampleRate (RingBuffer_prepare n sr b) \<noteq> 0"
  by (simp add: RingBuffer_prepare_sampleRate)

text \<open>
  C4: \<open>prepare\<close> with a sample rate of zero stores 1, so that no later conversion divides
  by zero. The ring buffer does so (\<open>RingBuffer_prepare_sampleRate\<close>). The filter does not:
  \<open>Filter::prepare(0)\<close> stores 0, and the next \<open>setParameters\<close> reaches
  \<open>jassert(sampleRate > 0)\<close> with a rate of zero, in front of \<open>cutoff / sampleRate\<close>.
\<close>

theorem Filter_prepare_zero_rate_kept:
  "f_sampleRate (Filter_prepare 0 (Filter_init :: real Filter)) = 0
   \<and> Filter_setParameters Filter_Parameters_default (Filter_prepare 0 (Filter_init :: real Filter))
       = Inl AssertFailed"
  by (simp add: Filter_defs)

theorem Filter_prepare_zero_rate_kept_witness:
  "isl (Filter_setParameters Filter_Parameters_default
          (Filter_prepare 0 (Filter_init :: real Filter)))"
  using Filter_prepare_zero_rate_kept by simp

subsection \<open>DC gain\<close>

text \<open>
  At a fixpoint of the recursive update under a constant input \<open>c\<close> the output is
  \<open>c (a0 + a1 + a2) / (1 + b1 + b2)\<close>.
\<close>

lemma Filter_fixpoint_output:
  assumes "fp_enabled (f_parameters f)" and "Filter_process (Some c) f = Inr (out, f)"
  shows "out * (1 + co_b1 (f_co f) + co_b2 (f_co f))
           = c * (co_a0 (f_co f) + co_a1 (f_co f) + co_a2 (f_co f))"
proof -
  define co where "co = f_co f"
  define d1 where "d1 = co_a1 co * c + co_dly2 co - co_b1 co * out"
  define d2 where "d2 = co_a2 co * c - co_b2 co * out"
  from assms have out: "out = co_a0 co * c + co_dly1 co"
    and fx: "f\<lparr>f_co := co\<lparr>co_dly1 := d1, co_dly2 := d2\<rparr>\<rparr> = f"
    by (auto simp add: Filter_process_def Let_def co_def d1_def d2_def)
  from fx have "f_co (f\<lparr>f_co := co\<lparr>co_dly1 := d1, co_dly2 := d2\<rparr>\<rparr>) = co"
    by (simp add: co_def)
  then have eq: "co\<lparr>co_dly1 := d1, co_dly2 := d2\<rparr> = co" by simp
  have "co_dly1 (co\<lparr>co_dly1 := d1, co_dly2 := d2\<rparr>) = d1"
       "co_dly2 (co\<lparr>co_dly1 := d1, co_dly2 := d2\<rparr>) = d2" by simp_all
  with eq have "co_dly1 co = d1" "co_dly2 co = d2" by simp_all
  with out show ?thesis
    unfolding d1_def d2_def co_def [symmetric] by (simp add: algebra_simps)
qed

text \<open>With \<open>n\<close> computed from the current \<open>k\<close> and \<open>q\<close> the lowpass has unity gain at DC.\<close>

lemma lowpass_consistent_dc_unity:
  assumes "fp_type p = lowpass" and "fp_q p \<noteq> 0"
    and "1 + co_k co / fp_q p + co_k2 co \<noteq> 0"
    and "co_n co = 1 / (1 + co_k co / fp_q p + co_k2 co)"
  shows "co_a0 (update_coeffs p co) + co_a1 (update_coeffs p co) + co_a2 (update_coeffs p co)
           = 1 + co_b1 (update_coeffs p co) + co_b2 (update_coeffs p co)"
  using assms by (simp add: update_coeffs_def field_simps)

text \<open>The highpass numerator vanishes at DC, whatever \<open>n\<close> is.\<close>

lemma highpass_numerator_zero:
  "fp_type p = highpass \<Longrightarrow>
     co_a0 (update_coeffs p co) + co_a1 (update_coeffs p co) + co_a2 (update_coeffs p co) = 0"
  by (simp add: update_coeffs_def)

text \<open>
  A stale \<open>n\<close>: computed for \<open>k\<close>, used with another tangent \<open>K\<close>. The lowpass identity
  \<open>a0 + a1 + a2 = 1 + b1 + b2\<close> then fails.
\<close>

lemma stale_n_breaks_unity:
  fixes k K q :: real
  assumes "0 < q" "0 < k" "0 < K" "k \<noteq> K"
  shows "4 * (K * K) * (1 / (1 + k / q + k * k))
     \<noteq> 1 + 2 * (K * K - 1) * (1 / (1 + k / q + k * k))
         + (1 - K / q + K * K) * (1 / (1 + k / q + k * k))"
proof
  define D where "D = 1 + k / q + k * k"
  define n where "n = 1 / D"
  have D: "0 < D" using assms by (simp add: D_def add_pos_pos)
  have nD: "n * D = 1" using D by (simp add: n_def)
  assume "4 * (K * K) * (1 / (1 + k / q + k * k))
     = 1 + 2 * (K * K - 1) * (1 / (1 + k / q + k * k))
         + (1 - K / q + K * K) * (1 / (1 + k / q + k * k))"
  then have "4 * (K * K) * n = 1 + 2 * (K * K - 1) * n + (1 - K / q + K * K) * n"
    by (simp add: D_def n_def)
  then have "(4 * (K * K) * n) * D = (1 + 2 * (K * K - 1) * n + (1 - K / q + K * K) * n) * D"
    by simp
  then have "4 * (K * K) * (n * D) = D + 2 * (K * K - 1) * (n * D) + (1 - K / q + K * K) * (n * D)"
    by (simp only: algebra_simps)
  then have "4 * (K * K) = D + 2 * (K * K - 1) + (1 - K / q + K * K)"
    by (simp only: nD mult_1_right)
  then have "K * K + K / q = k * k + k / q"
    by (simp add: D_def)
  moreover have "(K - k) * (K + k + 1 / q) = (K * K + K / q) - (k * k + k / q)"
    using assms(1) by (simp add: field_simps)
  ultimately have "(K - k) * (K + k + 1 / q) = 0"
    by simp
  moreover have "K + k + 1 / q > 0" using assms by (simp add: add_pos_pos)
  ultimately show False using assms by simp
qed

lemma cutoff_change_keeps_stale_n:
  assumes "0 < q" "0 < sr" "c1 \<noteq> 0"
    and "0 < FastTan (M_PI * (c1 / of_uint sr))" "0 < FastTan (M_PI * (c2 / of_uint sr))"
    and "FastTan (M_PI * (c1 / of_uint sr)) \<noteq> FastTan (M_PI * (c2 / of_uint sr))"
  shows "map_sum id dc_unity
     (Filter_set2 \<lparr>fp_type = lowpass, fp_cutoff = c1, fp_q = q, fp_enabled = True\<rparr>
        \<lparr>fp_type = lowpass, fp_cutoff = c2, fp_q = q, fp_enabled = True\<rparr>
        (Filter_prepare sr Filter_init)) = Inr False"
proof -
  have "c1 \<noteq> c2" using assms by auto
  then show ?thesis
    using assms stale_n_breaks_unity[OF assms(1) assms(4) assms(5) assms(6)]
    by (simp add: Filter_set2_def bindE_def Filter_defs Let_def dc_unity_def)
qed

text \<open>
  C5: for every valid cutoff and Q the lowpass has unity gain at DC (and the highpass
  gain 0). The highpass part holds (\<open>highpass_numerator_zero\<close>), and so does the lowpass
  part while \<open>n\<close> belongs to the current \<open>k\<close> (\<open>lowpass_consistent_dc_unity\<close>). But
  \<open>setCoefficients\<close> recomputes \<open>n\<close> only when Q changes: a filter at 44.1 kHz set to
  cutoff 500 Hz and then to 1000 Hz, with the default Q both times, keeps the \<open>n\<close> of
  500 Hz, and its coefficients do not have unity gain at DC.
\<close>

theorem lowpass_dc_gain_lost_after_cutoff_change:
  "map_sum id dc_unity
     (Filter_set2 Filter_Parameters_default (Filter_Parameters_default\<lparr>fp_cutoff := 1000\<rparr>)
        (Filter_prepare 44100 Filter_init)) = Inr False"
  using cutoff_change_keeps_stale_n[of M_SQRT1_2 44100 500 1000]
  by (simp add: Filter_Parameters_default_def of_uint_44100 M_SQRT1_2_def FastTan_500 FastTan_1000)

theorem lowpass_dc_gain_lost_after_cutoff_change_witness:
  "map_sum id dc_unity
     (Filter_set2 Filter_Parameters_default (Filter_Parameters_default\<lparr>fp_cutoff := 1000\<rparr>)
        (Filter_prepare 44100 Filter_init)) \<noteq> Inr True"
  using lowpass_dc_gain_lost_after_cutoff_change by simp

subsection \<open>Coefficient caching\<close>

lemma type_switch_changes_a0:
  assumes "0 < q" "0 < sr" "c \<noteq> 0"
    and "0 < FastTan (M_PI * (c / of_uint sr))" "FastTan (M_PI * (c / of_uint sr)) < 1"
  shows "map_sum id (co_prevCutoff \<circ> f_co)
       (Filter_setParameters \<lparr>fp_type = lowpass, fp_cutoff = c, fp_q = q, fp_enabled = True\<rparr>
          (Filter_prepare sr (Filter_init :: real Filter)))
     = Inr c
   \<and> map_sum id (co_prevQ \<circ> f_co)
       (Filter_setParameters \<lparr>fp_type = lowpass, fp_cutoff = c, fp_q = q, fp_enabled = True\<rparr>
          (Filter_prepare sr (Filter_init :: real Filter)))
     = Inr q
   \<and> map_sum id (co_prevSampleRate \<circ> f_co)
       (Filter_setParameters \<lparr>fp_type = lowpass, fp_cutoff = c, fp_q = q, fp_enabled = True\<rparr>
          (Filter_prepare sr (Filter_init :: real Filter)))
     = Inr (of_uint sr)
   \<and> map_sum id f_sampleRate
       (Filter_setParameters \<lparr>fp_type = lowpass, fp_cutoff = c, fp_q = q, fp_enabled = True\<rparr>
          (Filter_prepare sr (Filter_init :: real Filter)))
     = Inr sr
   \<and> \<not> isl (Filter_set2 \<lparr>fp_type = lowpass, fp_cutoff = c, fp_q = q, fp_enabled = True\<rparr>
                \<lparr>fp_type = highpass, fp_cutoff = c, fp_q = q, fp_enabled = True\<rparr>
               (Filter_prepare sr (Filter_init :: real Filter)))
   \<and> map_sum id (co_a0 \<circ> f_co)
        (Filter_set2 \<lparr>fp_type = lowpass, fp_cutoff = c, fp_q = q, fp_enabled = True\<rparr>
                \<lparr>fp_type = highpass, fp_cutoff = c, fp_q = q, fp_enabled = True\<rparr>
               (Filter_prepare sr (Filter_init :: real Filter)))
     \<noteq> map_sum id (co_a0 \<circ> f_co)
        (Filter_setParameters \<lparr>fp_type = lowpass, fp_cutoff = c, fp_q = q, fp_enabled = True\<rparr>
           (Filter_prepare sr (Filter_init :: real Filter)))"
proof -
  define k where "k = FastTan (M_PI * (c / of_uint sr))"
  have k: "0 < k" "k < 1" using assms by (simp_all add: k_def)
  have "0 < 1 + k / q + k * k" using k assms(1) by (simp add: add_pos_pos)
  moreover have "k * k < 1 * 1" using k by (intro mult_strict_mono) auto
  ultimately have "k * k * (1 / (1 + k / q + k * k)) \<noteq> 1 / (1 + k / q + k * k)"
    by simp
  then show ?thesis
    using assms
    by (simp add: Filter_set2_def bindE_def Filter_defs Let_def k_def)
qed

text \<open>
  C7 as stated fails: a filter at 44.1 kHz with the default lowpass parameters set once has
  cached exactly the cutoff, Q and sample rate of the next call, which only switches the
  type to highpass; the call succeeds and \<open>a0\<close> changes (from \<open>k2 n\<close> to \<open>n\<close>).
\<close>

theorem coefficients_change_on_type_switch:
  "map_sum id (co_prevCutoff \<circ> f_co)
       (Filter_setParameters Filter_Parameters_default (Filter_prepare 44100 (Filter_init :: real Filter)))
     = Inr (fp_cutoff (Filter_Parameters_default\<lparr>fp_type := highpass\<rparr>))
   \<and> map_sum id (co_prevQ \<circ> f_co)
       (Filter_setParameters Filter_Parameters_default (Filter_prepare 44100 (Filter_init :: real Filter)))
     = Inr (fp_q (Filter_Parameters_default\<lparr>fp_type := highpass\<rparr>))
   \<and> map_sum id (co_prevSampleRate \<circ> f_co)
       (Filter_setParameters Filter_Parameters_default (Filter_prepare 44100 (Filter_init :: real Filter)))
     = Inr (of_uint 44100)
   \<and> map_sum id f_sampleRate
       (Filter_setParameters Filter_Parameters_default (Filter_prepare 44100 (Filter_init :: real Filter)))
     = Inr 44100
   \<and> \<not> isl (Filter_set2 Filter_Parameters_default
               (Filter_Parameters_default\<lparr>fp_type := highpass\<rparr>)
               (Filter_prepare 44100 (Filter_init :: real Filter)))
   \<and> map_sum id (co_a0 \<circ> f_co)
        (Filter_set2 Filter_Parameters_default
           (Filter_Parameters_default\<lparr>fp_type := highpass\<rparr>)
           (Filter_prepare 44100 (Filter_init :: real Filter)))
     \<noteq> map_sum id (co_a0 \<circ> f_co)
        (Filter_setParameters Filter_Parameters_default (Filter_prepare 44100 (Filter_init :: real Filter)))"
  using type_switch_changes_a0[of M_SQRT1_2 44100 500]
  by (simp add: Filter_Parameters_default_def of_uint_44100 M_SQRT1_2_def FastTan_500)

text \<open>
  C7, amended: when \<open>setParameters\<close> is invoked with the filter enabled and returns,
  \<open>k\<close> and \<open>k2\<close> change only if the cutoff or the sample rate differ from the cached
  values, \<open>n\<close> changes only if Q differs from the cached value, and if cutoff, Q and sample
  rate all equal the cached values then \<open>k\<close>, \<open>k2\<close> and \<open>n\<close> are left unchanged and the
  coefficients \<open>a0, a1, a2, b1, b2\<close> are recomputed from them for the requested type: they
  are left unchanged when they already are the coefficients of that type.
\<close>

theorem setParameters_caching:
  assumes "fp_enabled p" and "Filter_setParameters p (f :: real Filter) = Inr f'"
  shows "(co_k (f_co f') \<noteq> co_k (f_co f) \<or> co_k2 (f_co f') \<noteq> co_k2 (f_co f)
            \<longrightarrow> fp_cutoff p \<noteq> co_prevCutoff (f_co f)
                \<or> of_uint (f_sampleRate f) \<noteq> co_prevSampleRate (f_co f))
       \<and> (co_n (f_co f') \<noteq> co_n (f_co f) \<longrightarrow> fp_q p \<noteq> co_prevQ (f_co f))
       \<and> (fp_cutoff p = co_prevCutoff (f_co f) \<and> fp_q p = co_prevQ (f_co f)
            \<and> of_uint (f_sampleRate f) = co_prevSampleRate (f_co f)
            \<longrightarrow> co_k (f_co f') = co_k (f_co f) \<and> co_k2 (f_co f') = co_k2 (f_co f)
                \<and> co_n (f_co f') = co_n (f_co f)
                \<and> f_co f' = update_coeffs p (f_co f)
                \<and> (f_co f = update_coeffs p (f_co f) \<longrightarrow> f_co f' = f_co f))"
  using assms
  by (auto simp: Filter_setParameters_def setCoefficients_def update_k_def update_n_def
        update_coeffs_def Let_def split: if_splits FilterType.splits)

lemma Filter_example_eq:
  "Filter_example =
     (Filter_prepare 44100 Filter_init)
       \<lparr>f_co := update_coeffs Filter_Parameters_default
          (update_n Filter_Parameters_default
            ((f_co Filter_init)\<lparr>co_k := FastTan (M_PI * 5 / 441),
               co_k2 := FastTan (M_PI * 5 / 441) * FastTan (M_PI * 5 / 441),
               co_prevCutoff := 500, co_prevSampleRate := 44100\<rparr>))\<rparr>"
  by (simp add: Filter_example_def Filter_setParameters_def setCoefficients_def update_k_def
        Filter_prepare_def Filter_init_def Filter_Parameters_default_def of_uint_44100 Let_def)

theorem setParameters_caching_witness:
  "fp_enabled Filter_Parameters_default
   \<and> Filter_setParameters Filter_Parameters_default Filter_example = Inr Filter_example
   \<and> fp_cutoff Filter_Parameters_default = co_prevCutoff (f_co Filter_example)
   \<and> fp_q Filter_Parameters_default = co_prevQ (f_co Filter_example)
   \<and> of_uint (f_sampleRate Filter_example) = co_prevSampleRate (f_co Filter_example)
   \<and> f_co Filter_example = update_coeffs Filter_Parameters_default (f_co Filter_example)"
proof -
  have h1: "fp_enabled Filter_Parameters_default"
    by (simp add: Filter_Parameters_default_def)
  have h2: "Filter_setParameters Filter_Parameters_default Filter_example = Inr Filter_example"
    by (simp add: Filter_example_eq Filter_defs of_uint_44100 M_SQRT1_2_def Let_def)
  have h3: "fp_cutoff Filter_Parameters_default = co_prevCutoff (f_co Filter_example)
     \<and> fp_q Filter_Parameters_default = co_prevQ (f_co Filter_example)
     \<and> of_uint (f_sampleRate Filter_example) = co_prevSampleRate (f_co Filter_example)"
    by (simp add: Filter_example_eq Filter_defs of_uint_44100 M_SQRT1_2_def Let_def)
  from setParameters_caching [OF h1 h2] h3
  have "f_co Filter_example = update_coeffs Filter_Parameters_default (f_co Filter_example)"
    by simp
  with h1 h2 h3 show ?thesis by simp
qed

section \<open>The ring buffer\<close>

subsection \<open>Write index\<close>

lemma incrementWritePointer_inv:
  "writeIndex_inv b \<Longrightarrow> writeIndex_inv (incrementWritePointer b)"
  unfolding writeIndex_inv_def incrementWritePointer_def Let_def
  by (simp, unat_arith)

lemma incrementWritePointer_size [simp]:
  "rb_size (incrementWritePointer b) = rb_size b"
  by (simp add: incrementWritePointer_def Let_def)

lemma pushToBuffer_inv:
  "writeIndex_inv b \<Longrightarrow> pushToBuffer input b = Inr b' \<Longrightarrow> writeIndex_inv b'"
  using incrementWritePointer_inv[of "b\<lparr>rb_buffer := hb\<rparr>" for hb]
  by (auto simp: pushToBuffer_def writeIndex_inv_def split: option.splits sum.splits)

lemma getFromBuffer_frame:
  "getFromBuffer interp b = Inr (v, b') \<Longrightarrow>
     rb_writeIndex b' = rb_writeIndex b \<and> rb_size b' = rb_size b \<and> rb_buffer b' = rb_buffer b
     \<and> rb_sampleRate b' = rb_sampleRate b"
  by (auto simp: getFromBuffer_def getFromBufferNoInterp_def getFromBufferLinearInterp_def
        getFromBufferCubicInterp_def Let_def
      split: InterpolationType.splits sum.splits prod.splits)

lemma getFromBuffer_ptr_frame:
  "getFromBuffer_ptr sample interp b = Inr (v, b') \<Longrightarrow>
     rb_writeIndex b' = rb_writeIndex b \<and> rb_size b' = rb_size b"
  by (auto simp: getFromBuffer_ptr_def split: option.splits sum.splits dest: getFromBuffer_frame)

lemma getAndPush_inv:
  assumes "writeIndex_inv b" and "getAndPush input b = Inr (v, b')"
  shows "writeIndex_inv b'"
proof (cases input)
  case None
  with assms show ?thesis by (simp add: getAndPush_def)
next
  case (Some x)
  with assms obtain b1 where p: "pushToBuffer (Some x) b = Inr b1"
    and g: "getFromBuffer_ptr (Some x) noInterp b1 = Inr (v, b')"
    by (auto simp: getAndPush_def split: sum.splits)
  from pushToBuffer_inv [OF assms(1) p] getFromBuffer_ptr_frame [OF g]
  show ?thesis by (simp add: writeIndex_inv_def)
qed

lemma prepare_inv:
  "writeIndex_inv b \<Longrightarrow> 0 < rb_size (RingBuffer_prepare n sr b) \<Longrightarrow>
     writeIndex_inv (RingBuffer_prepare n sr b)"
  by (auto simp: writeIndex_inv_def RingBuffer_prepare_def RingBuffer_clear_def Let_def
      split: if_splits)

lemma prepare_init_inv:
  "0 < rb_size (RingBuffer_prepare n sr (RingBuffer_init :: real RingBuffer)) \<Longrightarrow>
     writeIndex_inv (RingBuffer_prepare n sr RingBuffer_init)"
  by (auto simp: writeIndex_inv_def RingBuffer_prepare_def RingBuffer_clear_def Let_def
        RingBuffer_init_def split: if_splits)

text \<open>
  C10: the invariant \<open>0 \<le> writeIndex < size\<close> holds once \<open>prepare\<close> has established a
  size above zero on a constructed buffer, and every operation preserves it: pushing,
  \<open>getAndPush\<close>, \<open>forceIncrementWritePointer\<close>, every read, setting the delay time,
  clearing, and \<open>prepare\<close> (which resets the index on a resize) whenever it leaves a
  size above zero. An operation that fails (\<open>Inl\<close>) leaves no buffer to speak of.
\<close>

theorem writeIndex_invariant:
  "(0 < rb_size (RingBuffer_prepare n sr (RingBuffer_init :: real RingBuffer))
      \<longrightarrow> writeIndex_inv (RingBuffer_prepare n sr RingBuffer_init))
   \<and> (writeIndex_inv b \<and> RingBuffer_apply op b = Inr b' \<and> 0 < rb_size b'
      \<longrightarrow> writeIndex_inv b')"
proof (intro conjI impI)
  assume "0 < rb_size (RingBuffer_prepare n sr (RingBuffer_init :: real RingBuffer))"
  then show "writeIndex_inv (RingBuffer_prepare n sr RingBuffer_init)"
    by (rule prepare_init_inv)
next
  assume a: "writeIndex_inv b \<and> RingBuffer_apply op b = Inr b' \<and> 0 < rb_size b'"
  then have inv: "writeIndex_inv b" and ap: "RingBuffer_apply op b = Inr b'"
    and pos: "0 < rb_size b'" by simp_all
  show "writeIndex_inv b'"
  proof (cases op)
    case (Op_pushToBuffer input)
    with inv ap show ?thesis by (auto dest: pushToBuffer_inv)
  next
    case (Op_getAndPush input)
    with inv ap show ?thesis
      by (cases "getAndPush input b") (auto dest: getAndPush_inv)
  next
    case Op_forceIncrementWritePointer
    with inv ap show ?thesis
      by (auto simp: forceIncrementWritePointer_def incrementWritePointer_inv)
  next
    case (Op_getFromBuffer interp)
    with inv ap show ?thesis
      by (cases "getFromBuffer interp b") (auto simp: writeIndex_inv_def dest: getFromBuffer_frame)
  next
    case (Op_getFromBuffer_ptr sample interp)
    with inv ap show ?thesis
      by (cases "getFromBuffer_ptr sample interp b")
         (auto simp: writeIndex_inv_def dest: getFromBuffer_ptr_frame)
  next
    case (Op_prepare n' sr')
    with inv ap pos show ?thesis by (auto intro: prepare_inv)
  next
    case (Op_prepare_seconds secs sr')
    with inv ap pos show ?thesis
      by (auto simp: RingBuffer_prepare_seconds_def intro: prepare_inv)
  next
    case (Op_setDelayTime t smoothTime)
    with inv ap show ?thesis
      by (auto simp: setDelayTime_def writeIndex_inv_def Let_def)
  next
    case Op_clear
    with inv ap show ?thesis
      by (auto simp: RingBuffer_clear_def writeIndex_inv_def)
  qed
qed

subsection \<open>Pushing and reading back\<close>

lemma unat_succ_lt:
  fixes w :: uint
  assumes "w < n"
  shows "unat (w + 1) = unat w + 1"
  using assms by unat_arith

lemma pushToBuffer_ok:
  assumes "rb_ok b"
  shows "pushToBuffer (Some x) b =
     Inr (b\<lparr>rb_buffer := (rb_buffer b)\<lparr>hb_data := (hb_data (rb_buffer b))[unat (rb_writeIndex b) := x]\<rparr>,
            rb_writeIndex := (if unat (rb_writeIndex b) + 1 = unat (rb_size b) then 0
                              else rb_writeIndex b + 1)\<rparr>)"
proof -
  have lt: "rb_writeIndex b < rb_size b" using assms by (simp add: rb_ok_def)
  have u: "unat (rb_writeIndex b + 1) = unat (rb_writeIndex b) + 1"
    by (rule unat_succ_lt [OF lt])
  have ge: "(rb_writeIndex b + 1 \<ge> rb_size b) = (unat (rb_writeIndex b) + 1 = unat (rb_size b))"
    using lt u by (auto simp: word_le_nat_alt word_less_nat_alt)
  have z: "rb_writeIndex b + 1 - rb_size b = 0" if "unat (rb_writeIndex b) + 1 = unat (rb_size b)"
  proof -
    from that u have "unat (rb_writeIndex b + 1) = unat (rb_size b)" by simp
    then have "rb_writeIndex b + 1 = rb_size b" by (simp only: word_unat_eq_iff)
    then show ?thesis by simp
  qed
  have nle: "\<not> rb_size b \<le> rb_writeIndex b" using lt by simp
  have ltn: "unat (rb_writeIndex b) < unat (rb_size b)" using lt by (simp add: word_less_nat_alt)
  show ?thesis
    using assms nle ltn ge z
    by (simp add: pushToBuffer_def HeapBlock_write_def HeapBlock_cell_def rb_ok_def
          incrementWritePointer_def Let_def)
qed


lemma pushToBuffer_ok_rb_ok:
  assumes "rb_ok b" and "unat (rb_writeIndex b) + 1 < unat (rb_size b)"
  shows "pushToBuffer (Some x) b = Inr b' \<Longrightarrow>
     rb_ok b' \<and> unat (rb_writeIndex b') = unat (rb_writeIndex b) + 1 \<and> rb_size b' = rb_size b"
  using assms unat_succ_lt[of "rb_writeIndex b" "rb_size b"]
  by (auto simp: pushToBuffer_ok rb_ok_def word_less_nat_alt)

lemma push_all_fill:
  assumes "rb_ok b" and "unat (rb_writeIndex b) + length xs \<le> unat (rb_size b)"
  shows "push_all xs b =
     Inr (b\<lparr>rb_buffer := (rb_buffer b)\<lparr>hb_data :=
               take (unat (rb_writeIndex b)) (hb_data (rb_buffer b)) @ xs
               @ drop (unat (rb_writeIndex b) + length xs) (hb_data (rb_buffer b))\<rparr>,
            rb_writeIndex :=
               of_nat ((unat (rb_writeIndex b) + length xs) mod unat (rb_size b))\<rparr>)"
  using assms
proof (induction xs arbitrary: b)
  case Nil
  then have "unat (rb_writeIndex b) < unat (rb_size b)"
    by (simp add: rb_ok_def word_less_nat_alt)
  then show ?case by (simp add: push_all_def)
next
  case (Cons x xs)
  define w where "w = unat (rb_writeIndex b)"
  define N where "N = unat (rb_size b)"
  define d where "d = hb_data (rb_buffer b)"
  define b1 where "b1 = b\<lparr>rb_buffer := (rb_buffer b)\<lparr>hb_data := d[w := x]\<rparr>,
            rb_writeIndex := (if w + 1 = N then 0 else rb_writeIndex b + 1)\<rparr>"
  have p: "pushToBuffer (Some x) b = Inr b1"
    using pushToBuffer_ok [OF Cons.prems(1)] by (simp add: b1_def w_def N_def d_def)
  have wN: "w < N" and len: "length d = N"
    using Cons.prems(1) by (simp_all add: rb_ok_def word_less_nat_alt w_def N_def d_def)
  have upd: "d[w := x] = take w d @ x # drop (Suc w) d"
    using wN len by (simp add: upd_conv_take_nth_drop)
  have step: "push_all (x # xs) b = push_all xs b1"
    using p by (simp add: push_all_def)
  show ?case
  proof (cases "w + 1 = N")
    case True
    have xs: "xs = []"
      using Cons.prems(2) True by (cases xs) (simp_all add: w_def N_def)
    have "push_all (x # xs) b = Inr b1"
      using step xs by (simp add: push_all_def)
    then show ?thesis
      using True upd xs
      by (simp add: b1_def w_def [symmetric] N_def [symmetric] d_def [symmetric])
  next
    case False
    with wN have lt: "w + 1 < N" by simp
    have u: "unat (rb_writeIndex b + 1) = w + 1"
      using unat_succ_lt[of "rb_writeIndex b" "rb_size b"] Cons.prems(1)
      by (simp add: rb_ok_def w_def)
    have ok1: "rb_ok b1"
      using Cons.prems(1) False lt u len
      by (simp add: rb_ok_def b1_def word_less_nat_alt N_def d_def)
    have w1: "unat (rb_writeIndex b1) = w + 1" "unat (rb_size b1) = N"
      "hb_data (rb_buffer b1) = d[w := x]"
      using False u by (simp_all add: b1_def N_def)
    have le1: "unat (rb_writeIndex b1) + length xs \<le> unat (rb_size b1)"
      using Cons.prems(2) w1 by (simp add: w_def N_def)
    have tk: "take (w + 1) (d[w := x]) = take w d @ [x]"
      using wN len by (simp add: upd take_Suc_conv_app_nth)
    have dr: "drop (w + 1 + length xs) (d[w := x]) = drop (w + 1 + length xs) d"
      by simp
    have "push_all (x # xs) b =
       Inr (b1\<lparr>rb_buffer := (rb_buffer b1)\<lparr>hb_data :=
               take (w + 1) (d[w := x]) @ xs @ drop (w + 1 + length xs) (d[w := x])\<rparr>,
            rb_writeIndex := of_nat ((w + 1 + length xs) mod N)\<rparr>)"
      using step Cons.IH [OF ok1 le1] by (simp only: w1)
    then show ?thesis
      using tk dr False
      by (simp add: b1_def w_def [symmetric] N_def [symmetric] d_def [symmetric])
  qed
qed


lemma prepare_fresh_rate:
  assumes "rb_size (RingBuffer_prepare n R (RingBuffer_init :: 'a::zero RingBuffer)) = n"
    and "0 < n"
  shows "R \<noteq> 0"
proof
  assume "R = 0"
  with assms show False
    by (simp add: RingBuffer_prepare_def RingBuffer_clear_def RingBuffer_init_def setClamp_def
          Let_def split: if_splits)
qed

lemma prepare_fresh:
  assumes "rb_size (RingBuffer_prepare n R (RingBuffer_init :: 'a::zero RingBuffer)) = n"
    and "0 < n"
  shows "RingBuffer_prepare n R (RingBuffer_init :: 'a RingBuffer) =
     \<lparr>rb_buffer = \<lparr>hb_data = replicate (unat n) 0, hb_size = n\<rparr>, rb_size = n,
      rb_writeIndex = 0, rb_sampleRate = R, rb_delaySmoothTime = 0,
      rb_delayTime = SmoothedValue_init 0\<rparr>"
  using assms prepare_fresh_rate [OF assms]
  by (auto simp: RingBuffer_prepare_def RingBuffer_clear_def RingBuffer_init_def Let_def
        reallocate_def initialise_def HeapBlock_init_def split: if_splits)

lemma pushed_full:
  assumes "rb_size (RingBuffer_prepare n R (RingBuffer_init :: real RingBuffer)) = n" and "0 < n"
    and "length s = unat n"
  shows "pushed n R s =
     Inr \<lparr>rb_buffer = \<lparr>hb_data = s, hb_size = n\<rparr>, rb_size = n,
      rb_writeIndex = 0, rb_sampleRate = R, rb_delaySmoothTime = 0,
      rb_delayTime = SmoothedValue_init 0\<rparr>"
proof -
  define B where "B = RingBuffer_prepare n R (RingBuffer_init :: real RingBuffer)"
  have B: "B = \<lparr>rb_buffer = \<lparr>hb_data = replicate (unat n) 0, hb_size = n\<rparr>, rb_size = n,
      rb_writeIndex = 0, rb_sampleRate = R, rb_delaySmoothTime = 0,
      rb_delayTime = SmoothedValue_init 0\<rparr>"
    unfolding B_def by (rule prepare_fresh [OF assms(1,2)])
  have ok: "rb_ok B" using assms(2) by (simp add: B rb_ok_def)
  have le: "unat (rb_writeIndex B) + length s \<le> unat (rb_size B)"
    using assms(3) by (simp add: B)
  show ?thesis
    unfolding pushed_def B_def [symmetric] push_all_fill [OF ok le]
    using assms(3) by (simp add: B)
qed

lemma getNextValue_at_rest:
  "sv_countdown sv \<le> 0 \<Longrightarrow> getNextValue sv = (sv_target sv, sv)"
  by (simp add: getNextValue_def isSmoothing_def)

lemma setTargetValue_unsmoothed:
  "sv_stepsToTarget sv \<le> 0 \<Longrightarrow> sv_countdown sv \<le> 0 \<Longrightarrow>
     sv_target (setTargetValue t sv) = t \<and> sv_countdown (setTargetValue t sv) \<le> 0"
  by (simp add: setTargetValue_def setCurrentAndTargetValue_def)

lemma getReadIndex_full:
  fixes n :: uint
  assumes "k < unat n"
  shows "getReadIndex (of_nat k) \<lparr>rb_buffer = hb, rb_size = n, rb_writeIndex = 0,
            rb_sampleRate = R, rb_delaySmoothTime = st, rb_delayTime = dt\<rparr> < n
       \<and> unat (getReadIndex (of_nat k) \<lparr>rb_buffer = hb, rb_size = n, rb_writeIndex = 0,
            rb_sampleRate = R, rb_delaySmoothTime = st, rb_delayTime = dt\<rparr>)
           = (unat n - k) mod unat n"
proof -
  define kw :: uint where "kw = of_nat k"
  have "unat n < 2 ^ 32" using unsigned_less [of n, where 'a = nat] by simp
  with assms have k32: "k < 2 ^ 32" by simp
  have uk: "unat kw = k" using k32 by (simp add: kw_def unat_of_nat)
  have le: "kw \<le> n" using assms uk by (simp add: word_le_nat_alt)
  have ut: "unat (n - kw) = unat n - k" using unat_sub [OF le] uk by simp
  show ?thesis
  proof (cases "k = 0")
    case True
    then have "kw = 0" by (simp add: kw_def)
    with assms True show ?thesis
      by (simp add: getReadIndex_def kw_def [symmetric] word_less_nat_alt)
  next
    case False
    with assms ut have lt: "unat (n - kw) < unat n" by simp
    then have "n - kw < n" by (simp add: word_less_nat_alt)
    then have "\<not> n \<le> n - kw" by simp
    with lt ut show ?thesis
      by (simp add: getReadIndex_def kw_def [symmetric] word_less_nat_alt)
  qed
qed

lemma HeapBlock_read_in_range:
  "i < hb_size hb \<Longrightarrow> unat i < length (hb_data hb) \<Longrightarrow>
     HeapBlock_read hb i = Inr (hb_data hb ! unat i)"
  by (simp add: HeapBlock_read_def HeapBlock_cell_def Let_def leD)

text \<open>
  C3, amended: for a freshly constructed ring buffer prepared with capacity \<open>N\<close> at rate
  \<open>R\<close>, after pushing \<open>s[0..N)\<close> and setting a delay time \<open>t\<close> inside the buffer with a
  smoothing time of zero (so that the delay time takes effect at once), a read with no
  interpolation returns \<open>s[(writeIndex - k) mod N]\<close>, where the write index is back at 0
  and \<open>k < N\<close> is the number of samples that the single-precision product of the rate
  and \<open>t\<close> truncates to. For \<open>t = k/R\<close> that is the sample written \<open>k\<close> steps earlier
  exactly when the product does not round below \<open>k\<close>.
\<close>

theorem delay_roundtrip:
  assumes "rb_size (RingBuffer_prepare n R (RingBuffer_init :: real RingBuffer)) = n" and "0 < n"
    and "length s = unat n" and "k < unat n"
    and "0 \<le> t" and "t \<le> float32 (float32 (of_uint n) / float32 (of_uint R))"
    and "to_int (float32 (float32 (of_uint R) * t)) = int k"
  shows "pushed_writeIndex n R s = Inr 0
       \<and> delayed_read noInterp n R s t 0
           = Inr (s ! ((unat (0 :: uint) + unat n - k) mod unat n))"
proof -
  define B where "B = \<lparr>rb_buffer = \<lparr>hb_data = s, hb_size = n\<rparr>, rb_size = n,
      rb_writeIndex = 0, rb_sampleRate = R, rb_delaySmoothTime = 0,
      rb_delayTime = SmoothedValue_init 0\<rparr>"
  define sv where "sv = setTargetValue t (SmoothedValue_init 0)"
  have pushed: "pushed n R s = Inr B"
    unfolding B_def by (rule pushed_full [OF assms(1-3)])
  have set: "setDelayTime t 0 B = B\<lparr>rb_delayTime := sv\<rparr>"
    using assms(5,6) by (simp add: setDelayTime_def B_def clamp_def sv_def Let_def)
  have nxt: "getNextValue sv = (t, sv)"
    using setTargetValue_unsmoothed [of "SmoothedValue_init 0" t]
      getNextValue_at_rest [of sv]
    by (simp add: sv_def SmoothedValue_init_def)
  have off: "to_uint (float32 (float32 (of_uint R) * t)) = of_nat k"
    using assms(7) by (simp add: to_uint_def)
  define I where "I = getReadIndex (of_nat k) (B\<lparr>rb_delayTime := sv\<rparr>)"
  have idx: "I < n" "unat I = (unat n - k) mod unat n"
    using getReadIndex_full [OF assms(4), of "\<lparr>hb_data = s, hb_size = n\<rparr>" R 0 sv]
    by (simp_all add: I_def B_def)
  have "unat I < length s" using idx(1) assms(3) by (simp add: word_less_nat_alt)
  then have hr: "HeapBlock_read \<lparr>hb_data = s, hb_size = n\<rparr> I = Inr (s ! ((unat n - k) mod unat n))"
    using idx HeapBlock_read_in_range [of I "\<lparr>hb_data = s, hb_size = n\<rparr>"] by simp
  have rd: "getFromBuffer noInterp (B\<lparr>rb_delayTime := sv\<rparr>)
      = Inr (s ! ((unat n - k) mod unat n), B\<lparr>rb_delayTime := sv\<rparr>)"
    using hr nxt off
    by (simp add: getFromBuffer_def getFromBufferNoInterp_def B_def I_def Let_def)
  show ?thesis
    using pushed set rd
    by (simp add: pushed_writeIndex_def delayed_read_def bindE_def B_def)
qed

lemma of_uint_numeral [simp]: "of_uint 100 = 100" "of_uint 4 = 4" "of_uint 1 = 1"
  "of_uint 16 = 16"
  by (simp_all add: of_uint_def)

lemma prepare_4_100_size:
  "rb_size (RingBuffer_prepare 4 100 (RingBuffer_init :: real RingBuffer)) = 4"
  by (simp add: RingBuffer_prepare_def RingBuffer_clear_def RingBuffer_init_def setClamp_def Let_def)

lemma pushed_4_100_eq:
  "pushed 4 100 [10, 20, 30, 40] =
     Inr \<lparr>rb_buffer = \<lparr>hb_data = [10, 20, 30, 40], hb_size = 4\<rparr>, rb_size = 4,
      rb_writeIndex = 0, rb_sampleRate = 100, rb_delaySmoothTime = 0,
      rb_delayTime = SmoothedValue_init 0\<rparr>"
  using pushed_full [of 4 100 "[10, 20, 30, 40]"] prepare_4_100_size by simp

lemmas read_defs = delayed_read_def bindE_def setDelayTime_def setClamp_def clamp_def
  SmoothedValue_reset_def setCurrentAndTargetValue_def setTargetValue_def SmoothedValue_init_def
  getFromBuffer_def getFromBufferNoInterp_def getFromBufferLinearInterp_def getNextValue_def
  isSmoothing_def to_uint_def to_int_def getReadIndex_def HeapBlock_read_def HeapBlock_cell_def
  LinearInterp_def mod1_def Let_def float32_exact float32_inexact float32_products

text \<open>
  The round trip fails in two ways. First, \<open>setDelayTime\<close> smooths the delay time over
  0.1 s by default. With capacity 4 at rate 100, after pushing 10, 20, 30, 40 and setting
  the delay time \<open>2/100\<close>, the first read uses the first step of the ramp (0.002 s,
  offset 0) and returns 10, not \<open>s[2] = 30\<close>.
\<close>

lemma delay_roundtrip_default_smoothing:
  "pushed_writeIndex 4 100 [10, 20, 30, 40] = Inr 0
   \<and> delayed_read noInterp 4 100 [10, 20, 30, 40] (real 2 / of_uint 100) 0.1 = Inr 10
   \<and> delayed_read noInterp 4 100 [10, 20, 30, 40] (real 2 / of_uint 100) 0.1
       \<noteq> Inr ([10, 20, 30, 40] ! ((unat (0 :: uint) + unat (4 :: uint) - 2) mod unat (4 :: uint)))"
  by (simp add: pushed_writeIndex_def pushed_4_100_eq read_defs)

text \<open>
  Second, without smoothing the round trip still depends on the rounding. At 44.1 kHz the delay
  time \<open>7/44100\<close> is stored in single precision, the product of the rate and that value
  rounds to \<open>14680063 / 2097152\<close>, just below 7, and the read offset is 6 samples: with
  capacity 16 and the samples 10, 20, ..., 160 the read returns \<open>s[10] = 110\<close>, not
  \<open>s[9] = 100\<close>.
\<close>

lemma prepare_16_44100_size:
  "rb_size (RingBuffer_prepare 16 44100 (RingBuffer_init :: real RingBuffer)) = 16"
  by (simp add: RingBuffer_prepare_def RingBuffer_clear_def RingBuffer_init_def setClamp_def Let_def)

lemma pushed_16_44100_eq:
  "pushed 16 44100 [10, 20, 30, 40, 50, 60, 70, 80, 90, 100, 110, 120, 130, 140, 150, 160] =
     Inr \<lparr>rb_buffer = \<lparr>hb_data = [10, 20, 30, 40, 50, 60, 70, 80, 90, 100, 110, 120, 130,
                                       140, 150, 160], hb_size = 16\<rparr>, rb_size = 16,
      rb_writeIndex = 0, rb_sampleRate = 44100, rb_delaySmoothTime = 0,
      rb_delayTime = SmoothedValue_init 0\<rparr>"
  using pushed_full [of 16 44100
      "[10, 20, 30, 40, 50, 60, 70, 80, 90, 100, 110, 120, 130, 140, 150, 160]"]
    prepare_16_44100_size by simp

lemma delay_roundtrip_float32_truncation:
  "pushed_writeIndex 16 44100
       [10, 20, 30, 40, 50, 60, 70, 80, 90, 100, 110, 120, 130, 140, 150, 160] = Inr 0
   \<and> to_int (float32 (float32 (of_uint 44100) * float32 (real 7 / of_uint 44100))) = 6
   \<and> delayed_read noInterp 16 44100
         [10, 20, 30, 40, 50, 60, 70, 80, 90, 100, 110, 120, 130, 140, 150, 160]
         (float32 (real 7 / of_uint 44100)) 0 = Inr 110
   \<and> delayed_read noInterp 16 44100
         [10, 20, 30, 40, 50, 60, 70, 80, 90, 100, 110, 120, 130, 140, 150, 160]
         (float32 (real 7 / of_uint 44100)) 0
       \<noteq> Inr ([10, 20, 30, 40, 50, 60, 70, 80, 90, 100, 110, 120, 130, 140, 150, 160]
                 ! ((unat (0 :: uint) + unat (16 :: uint) - 7) mod unat (16 :: uint)))"
  by (simp add: pushed_writeIndex_def pushed_16_44100_eq of_uint_44100 read_defs)

text \<open>
  C3 as stated fails, with the default smoothing time and, with the smoothing time 0, by
  the rounding of the read offset.
\<close>

theorem delay_roundtrip_fails:
  "delayed_read noInterp 4 100 [10, 20, 30, 40] (real 2 / of_uint 100) 0.1
       \<noteq> Inr ([10, 20, 30, 40] ! ((unat (0 :: uint) + unat (4 :: uint) - 2) mod unat (4 :: uint)))
   \<and> delayed_read noInterp 16 44100
         [10, 20, 30, 40, 50, 60, 70, 80, 90, 100, 110, 120, 130, 140, 150, 160]
         (float32 (real 7 / of_uint 44100)) 0
       \<noteq> Inr ([10, 20, 30, 40, 50, 60, 70, 80, 90, 100, 110, 120, 130, 140, 150, 160]
                 ! ((unat (0 :: uint) + unat (16 :: uint) - 7) mod unat (16 :: uint)))"
  using delay_roundtrip_default_smoothing delay_roundtrip_float32_truncation by blast

text \<open>
  C6: a read with linear interpolation blends the sample at the read index with the one at
  the previous index, taken circularly. At read index 0 the code forms \<open>readIndex - 1\<close> in
  unsigned arithmetic and \<open>operator[]\<close> redirects it to \<open>data[size]\<close>, one past the end
  of the block: with capacity 4, samples 10, 20, 30, 40 and a delay of half a sample the
  read leaves the allocation instead of blending \<open>s[0]\<close> with \<open>s[3]\<close>.
\<close>

theorem linear_read_neighbour_out_of_bounds:
  "delayed_read linearInterp 4 100 [10, 20, 30, 40] 0.005 0 = Inl OutOfBounds"
  by (simp add: pushed_4_100_eq read_defs)

theorem linear_read_neighbour_out_of_bounds_witness:
  "isl (delayed_read linearInterp 4 100 [10, 20, 30, 40] 0.005 0)"
  using linear_read_neighbour_out_of_bounds by simp

text \<open>Away from index 0 the blend is as described: one and a half samples back.\<close>

lemma linear_read_in_range:
  "delayed_read linearInterp 4 100 [10, 20, 30, 40] 0.015 0 = Inr 35"
  by (simp add: pushed_4_100_eq read_defs)

theorem delay_roundtrip_witness:
  "rb_size (RingBuffer_prepare 4 100 (RingBuffer_init :: real RingBuffer)) = 4
   \<and> 0 \<le> float32 (real 2 / of_uint 100)
   \<and> float32 (real 2 / of_uint 100) \<le> float32 (float32 (of_uint 4) / float32 (of_uint 100))
   \<and> to_int (float32 (float32 (of_uint 100) * float32 (real 2 / of_uint 100))) = int 2
   \<and> delayed_read noInterp 4 100 [10, 20, 30, 40] (float32 (real 2 / of_uint 100)) 0 = Inr 30"
proof -
  have h: "0 \<le> float32 (real 2 / of_uint 100)"
      "float32 (real 2 / of_uint 100) \<le> float32 (float32 (of_uint 4) / float32 (of_uint 100))"
      "to_int (float32 (float32 (of_uint 100) * float32 (real 2 / of_uint 100))) = int 2"
    by (simp_all add: float32_exact float32_inexact float32_products to_int_def)
  from delay_roundtrip [of 4 100 "[10, 20, 30, 40]" 2 "float32 (real 2 / of_uint 100)",
      OF prepare_4_100_size _ _ _ h]
  have "delayed_read noInterp 4 100 [10, 20, 30, 40] (float32 (real 2 / of_uint 100)) 0 = Inr 30"
    by simp
  with h prepare_4_100_size show ?thesis by simp
qed

text \<open>The invariant of the write index at work: one push into a buffer of four.\<close>

lemma prepare_4_100_eq:
  "RingBuffer_prepare 4 100 (RingBuffer_init :: real RingBuffer) =
     \<lparr>rb_buffer = \<lparr>hb_data = [0, 0, 0, 0], hb_size = 4\<rparr>, rb_size = 4,
      rb_writeIndex = 0, rb_sampleRate = 100, rb_delaySmoothTime = 0,
      rb_delayTime = SmoothedValue_init 0\<rparr>"
proof -
  have u: "unat (4 :: uint) = 4" by simp
  have "replicate 4 (0 :: real) = [0, 0, 0, 0]" by (simp add: numeral_eq_Suc)
  then have "replicate (unat (4 :: uint)) (0 :: real) = [0, 0, 0, 0]" by (simp only: u)
  with prepare_fresh [OF prepare_4_100_size] show ?thesis by simp
qed

theorem writeIndex_invariant_witness:
  "0 < rb_size (RingBuffer_prepare 4 100 (RingBuffer_init :: real RingBuffer))
   \<and> writeIndex_inv (RingBuffer_prepare 4 100 RingBuffer_init)
   \<and> RingBuffer_apply (Op_pushToBuffer (Some 7)) (RingBuffer_prepare 4 100 RingBuffer_init)
       = Inr ((RingBuffer_prepare 4 100 RingBuffer_init)
                \<lparr>rb_buffer := \<lparr>hb_data = [7, 0, 0, 0], hb_size = 4\<rparr>, rb_writeIndex := 1\<rparr>)
   \<and> writeIndex_inv ((RingBuffer_prepare 4 100 RingBuffer_init)
                \<lparr>rb_buffer := \<lparr>hb_data = [7, 0, 0, 0], hb_size = 4\<rparr>, rb_writeIndex := 1\<rparr>)"
proof -
  have s: "0 < rb_size (RingBuffer_prepare 4 100 (RingBuffer_init :: real RingBuffer))"
    by (simp add: prepare_4_100_size)
  have a: "RingBuffer_apply (Op_pushToBuffer (Some 7)) (RingBuffer_prepare 4 100 RingBuffer_init)
       = Inr ((RingBuffer_prepare 4 100 RingBuffer_init)
                \<lparr>rb_buffer := \<lparr>hb_data = [7, 0, 0, 0], hb_size = 4\<rparr>, rb_writeIndex := 1\<rparr>)"
    by (simp add: prepare_4_100_eq pushToBuffer_def HeapBlock_write_def HeapBlock_cell_def
          incrementWritePointer_def Let_def word_le_nat_alt)
  have s': "0 < rb_size ((RingBuffer_prepare 4 100 (RingBuffer_init :: real RingBuffer))
                \<lparr>rb_buffer := \<lparr>hb_data = [7, 0, 0, 0], hb_size = 4\<rparr>, rb_writeIndex := 1\<rparr>)"
    using s by simp
  from writeIndex_invariant [of 4 100 "RingBuffer_prepare 4 100 RingBuffer_init"
      "Op_pushToBuffer (Some 7)" "(RingBuffer_prepare 4 100 RingBuffer_init)
                \<lparr>rb_buffer := \<lparr>hb_data = [7, 0, 0, 0], hb_size = 4\<rparr>, rb_writeIndex := 1\<rparr>"]
    s a s'
  show ?thesis by blast
qed

section \<open>The comb filter\<close>

lemma getDelay_parameters:
  "getDelay d0 cf = Inr (d, cf1) \<Longrightarrow> cf_parameters cf1 = cf_parameters cf"
  by (auto simp: getDelay_def Let_def split: sum.splits prod.splits)

text \<open>
  C8: \<open>process\<close> reads the delayed sample \<open>d\<close>, pushes \<open>input + d feedback\<close> into the
  buffer and returns \<open>input + d wet\<close>; in a well-formed buffer the pushed value lands in
  the cell at the write index. \<open>setParameters\<close> leaves the feedback in \<open>[0, 1]\<close>.
\<close>

theorem CombFilter_process_step:
  "(getDelay 0 cf = Inr (d, cf1) \<longrightarrow>
      CombFilter_process (Some x) cf =
        (case pushToBuffer (Some (x + d * cp_feedback (cf_parameters cf))) (cf_delay cf1) of
           Inl e \<Rightarrow> Inl e
         | Inr b \<Rightarrow> Inr (x + d * cp_wet (cf_parameters cf), cf1\<lparr>cf_delay := b\<rparr>)))
   \<and> (getDelay 0 cf = Inr (d, cf1) \<and> rb_ok (cf_delay cf1) \<longrightarrow>
        (\<exists>cf'. CombFilter_process (Some x) cf = Inr (x + d * cp_wet (cf_parameters cf), cf')
           \<and> hb_data (rb_buffer (cf_delay cf')) =
               (hb_data (rb_buffer (cf_delay cf1)))
                 [unat (rb_writeIndex (cf_delay cf1)) := x + d * cp_feedback (cf_parameters cf)]))
   \<and> 0 \<le> cp_feedback (cf_parameters
             (CombFilter_setParameters newParams freqOffset (cf0 :: real CombFilter)))
   \<and> cp_feedback (cf_parameters (CombFilter_setParameters newParams freqOffset cf0)) \<le> 1"
proof (intro conjI impI)
  assume g: "getDelay 0 cf = Inr (d, cf1)"
  from getDelay_parameters [OF g] g
  show "CombFilter_process (Some x) cf =
        (case pushToBuffer (Some (x + d * cp_feedback (cf_parameters cf))) (cf_delay cf1) of
           Inl e \<Rightarrow> Inl e
         | Inr b \<Rightarrow> Inr (x + d * cp_wet (cf_parameters cf), cf1\<lparr>cf_delay := b\<rparr>))"
    by (simp add: CombFilter_process_def Let_def mult.commute split: sum.splits)
next
  assume a: "getDelay 0 cf = Inr (d, cf1) \<and> rb_ok (cf_delay cf1)"
  then have g: "getDelay 0 cf = Inr (d, cf1)" and ok: "rb_ok (cf_delay cf1)" by simp_all
  from getDelay_parameters [OF g] g pushToBuffer_ok [OF ok]
  show "\<exists>cf'. CombFilter_process (Some x) cf = Inr (x + d * cp_wet (cf_parameters cf), cf')
           \<and> hb_data (rb_buffer (cf_delay cf')) =
               (hb_data (rb_buffer (cf_delay cf1)))
                 [unat (rb_writeIndex (cf_delay cf1)) := x + d * cp_feedback (cf_parameters cf)]"
    by (simp add: CombFilter_process_def Let_def mult.commute)
next
  show "0 \<le> cp_feedback (cf_parameters (CombFilter_setParameters newParams freqOffset cf0))"
    by (simp add: CombFilter_setParameters_def setClamp_def Let_def)
next
  show "cp_feedback (cf_parameters (CombFilter_setParameters newParams freqOffset cf0)) \<le> 1"
    by (simp add: CombFilter_setParameters_def setClamp_def Let_def)
qed

text \<open>
  The general form of the defect of the linear read: in a well-formed buffer, whenever the
  read index is 0 the neighbour is outside the block.
\<close>

lemma linear_read_at_index_zero:
  assumes "rb_ok b" and "getNextValue (rb_delayTime b) = (delay, dt)"
    and "getReadIndex (to_uint (float32 (float32 (of_uint (rb_sampleRate b)) * delay))) b = 0"
  shows "getFromBufferLinearInterp b = Inl OutOfBounds"
proof -
  have r: "getReadIndex x (b\<lparr>rb_delayTime := dt\<rparr>) = getReadIndex x b" for x
    by (simp add: getReadIndex_def Let_def)
  have m: "rb_size b \<le> 0 - 1" by simp
  have z: "0 < rb_size b" using assms(1) by (auto simp: rb_ok_def word_gt_0)
  show ?thesis
    using assms m z
    by (simp add: getFromBufferLinearInterp_def r HeapBlock_read_def HeapBlock_cell_def
          rb_ok_def Let_def leD word_less_nat_alt)
qed

lemmas comb_defs = CombFilter_process_def CombFilter_setParameters_def CombFilter_prepare_def
  CombFilter_init_def getDelay_def getFromBuffer_ptr_def pushToBuffer_def HeapBlock_write_def
  incrementWritePointer_def RingBuffer_prepare_def RingBuffer_clear_def RingBuffer_init_def
  reallocate_def initialise_def HeapBlock_init_def


lemma CombFilter_prepare_rate1: "CombFilter_prepare 1 CombFilter_init =
  \<lparr>cf_delay = \<lparr>rb_buffer = \<lparr>hb_data = [0], hb_size = 1\<rparr>, rb_size = 1, rb_writeIndex = 0,
        rb_sampleRate = 1, rb_delaySmoothTime = 1 / 10,
        rb_delayTime = \<lparr>sv_currentValue = 0, sv_target = 0, sv_countdown = 0, sv_step = 0,
                        sv_stepsToTarget = 0\<rparr>\<rparr>,
      cf_parameters = \<lparr>cp_freq = 0, cp_wet = 0, cp_feedback = 0, cp_interpType = noInterp\<rparr>\<rparr>"
  by (simp add: CombFilter_prepare_def CombFilter_init_def RingBuffer_prepare_def
      RingBuffer_clear_def RingBuffer_init_def reallocate_def initialise_def HeapBlock_init_def
      setDelayTime_def setClamp_def clamp_def SmoothedValue_reset_def setCurrentAndTargetValue_def
      setTargetValue_def SmoothedValue_init_def float32_exact Let_def)


lemmas sv_defs = SmoothedValue_reset_def setCurrentAndTargetValue_def setTargetValue_def
  SmoothedValue_init_def getNextValue_def isSmoothing_def

lemma CombFilter_setParameters_rate1: "CombFilter_setParameters
          \<lparr>cp_freq = 1, cp_wet = 1 / 2, cp_feedback = 2, cp_interpType = noInterp\<rparr> 0
          (CombFilter_prepare 1 CombFilter_init) =
  \<lparr>cf_delay = \<lparr>rb_buffer = \<lparr>hb_data = [0], hb_size = 1\<rparr>, rb_size = 1, rb_writeIndex = 0,
        rb_sampleRate = 1, rb_delaySmoothTime = 3 / 100,
        rb_delayTime = \<lparr>sv_currentValue = 1, sv_target = 1, sv_countdown = 0, sv_step = 0,
                        sv_stepsToTarget = 0\<rparr>\<rparr>,
      cf_parameters = \<lparr>cp_freq = 1, cp_wet = 1 / 2, cp_feedback = 1, cp_interpType = noInterp\<rparr>\<rparr>"
  by (simp add: CombFilter_prepare_rate1 CombFilter_setParameters_def setDelayTime_def setClamp_def
        clamp_def sv_defs float32_exact Let_def)

lemma getDelay_noInterp_eval:
  "getDelay d0 \<lparr>cf_delay = \<lparr>rb_buffer = \<lparr>hb_data = [v], hb_size = 1\<rparr>, rb_size = 1, rb_writeIndex = 0,
        rb_sampleRate = 1, rb_delaySmoothTime = 3 / 100,
        rb_delayTime = \<lparr>sv_currentValue = 1, sv_target = 1, sv_countdown = 0, sv_step = 0,
                        sv_stepsToTarget = 0\<rparr>\<rparr>,
      cf_parameters = \<lparr>cp_freq = 1, cp_wet = 1 / 2, cp_feedback = 1, cp_interpType = noInterp\<rparr>\<rparr>
   = Inr (v, \<lparr>cf_delay = \<lparr>rb_buffer = \<lparr>hb_data = [v], hb_size = 1\<rparr>, rb_size = 1, rb_writeIndex = 0,
        rb_sampleRate = 1, rb_delaySmoothTime = 3 / 100,
        rb_delayTime = \<lparr>sv_currentValue = 1, sv_target = 1, sv_countdown = 0, sv_step = 0,
                        sv_stepsToTarget = 0\<rparr>\<rparr>,
      cf_parameters = \<lparr>cp_freq = 1, cp_wet = 1 / 2, cp_feedback = 1, cp_interpType = noInterp\<rparr>\<rparr>)"
  by (simp add: getDelay_def getFromBuffer_ptr_def getFromBuffer_def getFromBufferNoInterp_def
        sv_defs to_uint_def to_int_def getReadIndex_def HeapBlock_read_def HeapBlock_cell_def
        float32_exact Let_def)


lemma pushToBuffer_single_cell:
  "pushToBuffer (Some x) \<lparr>rb_buffer = \<lparr>hb_data = [v], hb_size = 1\<rparr>, rb_size = 1, rb_writeIndex = 0,
        rb_sampleRate = 1, rb_delaySmoothTime = st, rb_delayTime = dt\<rparr>
   = Inr \<lparr>rb_buffer = \<lparr>hb_data = [x], hb_size = 1\<rparr>, rb_size = 1, rb_writeIndex = 0,
        rb_sampleRate = 1, rb_delaySmoothTime = st, rb_delayTime = dt\<rparr>"
  by (simp add: pushToBuffer_def HeapBlock_write_def HeapBlock_cell_def incrementWritePointer_def
        Let_def)

lemma CombFilter_example_eq:
  "CombFilter_example =
     \<lparr>cf_delay = \<lparr>rb_buffer = \<lparr>hb_data = [3], hb_size = 1\<rparr>, rb_size = 1, rb_writeIndex = 0,
        rb_sampleRate = 1, rb_delaySmoothTime = 3 / 100,
        rb_delayTime = \<lparr>sv_currentValue = 1, sv_target = 1, sv_countdown = 0, sv_step = 0,
                        sv_stepsToTarget = 0\<rparr>\<rparr>,
      cf_parameters = \<lparr>cp_freq = 1, cp_wet = 1 / 2, cp_feedback = 1, cp_interpType = noInterp\<rparr>\<rparr>"
  by (simp add: CombFilter_example_def CombFilter_setParameters_rate1 CombFilter_process_def getDelay_noInterp_eval pushToBuffer_single_cell)


theorem CombFilter_process_step_witness:
  "getDelay 0 CombFilter_example = Inr (3, CombFilter_example)
   \<and> rb_ok (cf_delay CombFilter_example)
   \<and> (\<exists>cf'. CombFilter_process (Some 5) CombFilter_example = Inr (13 / 2, cf')
         \<and> hb_data (rb_buffer (cf_delay cf')) = [8])"
proof -
  have g: "getDelay 0 CombFilter_example = Inr (3, CombFilter_example)"
    by (simp add: CombFilter_example_eq getDelay_noInterp_eval)
  have ok: "rb_ok (cf_delay CombFilter_example)"
    by (simp add: CombFilter_example_eq rb_ok_def)
  from CombFilter_process_step [of CombFilter_example 3 CombFilter_example 5] g ok
  have "\<exists>cf'. CombFilter_process (Some 5) CombFilter_example
            = Inr (5 + 3 * cp_wet (cf_parameters CombFilter_example), cf')
         \<and> hb_data (rb_buffer (cf_delay cf')) =
               (hb_data (rb_buffer (cf_delay CombFilter_example)))
                 [unat (rb_writeIndex (cf_delay CombFilter_example))
                    := 5 + 3 * cp_feedback (cf_parameters CombFilter_example)]"
    by blast
  then have "\<exists>cf'. CombFilter_process (Some 5) CombFilter_example = Inr (13 / 2, cf')
         \<and> hb_data (rb_buffer (cf_delay cf')) = [8]"
    by (simp add: CombFilter_example_eq)
  with g ok show ?thesis by simp
qed

section \<open>The reverb\<close>

lemma bindE_Inr: "(bindE m f = Inr y) = (\<exists>x. m = Inr x \<and> f x = Inr y)"
  by (cases m) (simp_all add: bindE_def)

lemma bindE_Inr_simp [simp]: "bindE (Inr x) f = f x"
  by (simp add: bindE_def)

lemma foldE_from_invariant:
  assumes "I m s"
    and "\<And>k s. m \<le> k \<Longrightarrow> k < n \<Longrightarrow> I k s \<Longrightarrow> \<exists>s'. body k s = Inr s' \<and> I (Suc k) s'"
    and "m \<le> n"
  shows "\<exists>s'. foldE body [m..<n] s = Inr s' \<and> I n s'"
  using assms
proof (induction "n - m" arbitrary: m s)
  case 0
  then show ?case by simp
next
  case (Suc d)
  then have mn: "m < n" by simp
  from Suc.prems(2) [of m s] mn Suc.prems(1)
  obtain s1 where s1: "body m s = Inr s1" "I (Suc m) s1" by auto
  have "\<exists>s'. foldE body [Suc m..<n] s1 = Inr s' \<and> I n s'"
  proof (rule Suc.hyps(1))
    show "d = n - Suc m" using Suc.hyps(2) by simp
    show "I (Suc m) s1" by (rule s1(2))
    show "\<exists>s'. body k s = Inr s' \<and> I (Suc k) s'" if "Suc m \<le> k" "k < n" "I k s" for k s
      using Suc.prems(2) [of k s] that by simp
    show "Suc m \<le> n" using mn by simp
  qed
  then show ?case using s1(1) mn by (simp add: upt_rec [of m n])
qed

lemma prepare_4410_size: "rb_size (RingBuffer_prepare 4410 44100 RingBuffer_init) = 4410"
  by (simp add: RingBuffer_prepare_def RingBuffer_clear_def RingBuffer_init_def setClamp_def Let_def)

lemma of_uint_rates: "of_uint 44100 = 44100" "of_uint 4410 = 4410" "of_uint 10 = 10"
  by (simp_all add: of_uint_def)

lemma to_uint_sizes: "to_uint 4410 = 4410" "to_uint 1 = 1"
  by (simp_all add: to_uint_def to_int_def)

lemma Comb_init_eq:
  "(Comb_init :: 'a::zero Comb) =
     \<lparr>cb_buffer = \<lparr>rb_buffer = \<lparr>hb_data = replicate 4410 0, hb_size = 4410\<rparr>, rb_size = 4410,
        rb_writeIndex = 0, rb_sampleRate = 44100, rb_delaySmoothTime = 0,
        rb_delayTime = SmoothedValue_init 0\<rparr>,
      cb_previousValue = 0\<rparr>"
proof -
  have u: "unat (4410 :: uint) = 4410" by simp
  have "RingBuffer_prepare 4410 44100 (RingBuffer_init :: 'a RingBuffer) =
     \<lparr>rb_buffer = \<lparr>hb_data = replicate 4410 0, hb_size = 4410\<rparr>, rb_size = 4410,
      rb_writeIndex = 0, rb_sampleRate = 44100, rb_delaySmoothTime = 0,
      rb_delayTime = SmoothedValue_init 0\<rparr>"
    using prepare_fresh [of 4410 44100] prepare_4410_size by (simp only: u) simp
  then show ?thesis
    by (simp add: Comb_init_def Comb_prepare_def Comb_clear_def RingBuffer_prepare_seconds_def
          of_uint_rates to_uint_sizes RingBuffer_clear_def initialise_def)
qed


lemma upt_2: "[0..<2] = [0, Suc 0]" by (simp add: upt_rec)
lemma upt_4: "[0..<4] = [0, 1, 2, 3]" by (simp add: upt_rec)
lemma upt_8: "[0..<8] = [0, 1, 2, 3, 4, 5, 6, 7]" by (simp add: upt_rec)

lemma setCombs_eval:
  assumes "rv_earlyCombs rv = [[e0, e1, e2, e3, e4, e5, e6, e7], [f0, f1, f2, f3, f4, f5, f6, f7]]"
    and "rv_lateCombs rv = [[g0, g1, g2, g3], [h0, h1, h2, h3]]"
    and "rv_earlyCombTimes rv = [t0, t1, t2, t3, t4, t5, t6, t7]"
    and "rv_lateCombTimes rv = [u0, u1, u2, u3]"
    and "sp = clamp (rp_spread (rv_parameters rv)) 0 0.01 / 2"
  shows "setCombs rv = Inr (rv\<lparr>
     rv_earlyCombs :=
       [[SetTime (t0 + sp) e0, SetTime (t1 + sp) e1, SetTime (t2 + sp) e2, SetTime (t3 + sp) e3,
         SetTime (t4 + sp) e4, SetTime (t5 + sp) e5, SetTime (t6 + sp) e6, SetTime (t7 + sp) e7],
        [SetTime (t0 + - sp) f0, SetTime (t1 + - sp) f1, SetTime (t2 + - sp) f2,
         SetTime (t3 + - sp) f3, SetTime (t4 + - sp) f4, SetTime (t5 + - sp) f5,
         SetTime (t6 + - sp) f6, SetTime (t7 + - sp) f7]],
     rv_lateCombs :=
       [[SetTime (u0 + sp) g0, SetTime (u1 + sp) g1, SetTime (u2 + sp) g2, SetTime (u3 + sp) g3],
        [SetTime (u0 + - sp) h0, SetTime (u1 + - sp) h1, SetTime (u2 + - sp) h2,
         SetTime (u3 + - sp) h3]]\<rparr>)"
  using assms(1-4) unfolding setCombs_def assms(5) [symmetric] Let_def upt_2 upt_4 upt_8
  by (simp add: vec2_at_def vec_at_def vec2_upd_def)


lemma getReadIndex_zero_lt:
  "rb_writeIndex b < rb_size b \<Longrightarrow> getReadIndex 0 b < rb_size b"
  by (simp add: getReadIndex_def Let_def not_le)

lemma quiet_read:
  assumes "quiet c"
  shows "\<exists>b1. getFromBuffer noInterp (cb_buffer c) = Inr (0, b1) \<and> rb_ok b1"
proof -
  define b where "b = cb_buffer c"
  obtain delay dt where nv: "getNextValue (rb_delayTime b) = (delay, dt)"
    by (cases "getNextValue (rb_delayTime b)")
  define b1 where "b1 = b\<lparr>rb_delayTime := dt\<rparr>"
  have ok: "rb_ok b" and z: "set (hb_data (rb_buffer b)) \<subseteq> {0}"
    and off: "to_uint (float32 (float32 (of_uint (rb_sampleRate b)) * delay)) = 0"
    using assms nv by (simp_all add: quiet_def b_def)
  have ok1: "rb_ok b1" using ok by (simp add: rb_ok_def b1_def)
  define I where "I = getReadIndex 0 b1"
  have lt: "I < rb_size b1" unfolding I_def
    by (rule getReadIndex_zero_lt) (use ok1 in \<open>simp add: rb_ok_def\<close>)
  then have lt': "I < hb_size (rb_buffer b1)" "unat I < length (hb_data (rb_buffer b1))"
    using ok1 by (simp_all add: rb_ok_def word_less_nat_alt)
  then have "hb_data (rb_buffer b1) ! unat I \<in> set (hb_data (rb_buffer b1))" by simp
  with z have v: "hb_data (rb_buffer b1) ! unat I = 0" by (auto simp: b1_def)
  have "HeapBlock_read (rb_buffer b1) I = Inr 0"
    using HeapBlock_read_in_range [OF lt'] v by simp
  then have "getFromBuffer noInterp b = Inr (0, b1)"
    using nv off
    by (simp add: getFromBuffer_def getFromBufferNoInterp_def Let_def b1_def I_def)
  with ok1 show ?thesis by (auto simp: b_def)
qed

lemma quiet_processEarly:
  assumes "quiet c"
  shows "\<exists>c'. processEarly (Some x) damp feed c = Inr (0, c')"
proof -
  from quiet_read [OF assms] obtain b1
    where r: "getFromBuffer noInterp (cb_buffer c) = Inr (0, b1)" and ok: "rb_ok b1" by blast
  show ?thesis
    using r pushToBuffer_ok [OF ok]
    by (simp add: processEarly_def Let_def)
qed

lemma quiet_processLate:
  assumes "quiet c"
  shows "\<exists>c'. processLate (Some x) c = Inr (0 - x, c')"
proof -
  from quiet_read [OF assms] obtain b1
    where r: "getFromBuffer noInterp (cb_buffer c) = Inr (0, b1)" and ok: "rb_ok b1" by blast
  show ?thesis
    using r pushToBuffer_ok [OF ok]
    by (simp add: processLate_def Let_def)
qed


lemma vec2_at_ok:
  "ch < length xss \<Longrightarrow> i < length (xss ! ch) \<Longrightarrow> vec2_at xss ch i = Inr (xss ! ch ! i)"
  by (simp add: vec2_at_def vec_at_def)

lemma early_loop_quiet:
  fixes combs :: "'a::{zero,plus,minus,scaleR} Comb list list"
  assumes "length combs = 2" and "n \<le> length (combs ! 0)" and "n \<le> length (combs ! 1)"
    and "\<forall>j<n. quiet (combs ! 0 ! j) \<and> quiet (combs ! 1 ! j)"
    and zero_plus: "(0 :: 'a) + 0 = 0"
  shows "\<exists>combs'. foldE (early_step input damp feed) [0..<n] (combs, 0, 0) = Inr (combs', 0, 0)"
proof -
  define I where "I = (\<lambda>k (s :: 'a Comb list list \<times> 'a \<times> 'a).
     case s of (cs, outL, outR) \<Rightarrow>
       outL = 0 \<and> outR = 0 \<and> length cs = 2 \<and> n \<le> length (cs ! 0) \<and> n \<le> length (cs ! 1)
       \<and> (\<forall>j. k \<le> j \<and> j < n \<longrightarrow> quiet (cs ! 0 ! j) \<and> quiet (cs ! 1 ! j)))"
  have init: "I 0 (combs, 0, 0)" using assms by (simp add: I_def)
  have step: "\<exists>s'. early_step input damp feed k s = Inr s' \<and> I (Suc k) s'"
    if "0 \<le> k" "k < n" "I k s" for k s
  proof -
    obtain cs outL outR where s: "s = (cs, outL, outR)" by (cases s) auto
    from that(3) have o: "outL = 0" "outR = 0" and len: "length cs = 2"
      and l0: "n \<le> length (cs ! 0)" and l1: "n \<le> length (cs ! 1)"
      and q: "\<And>j. k \<le> j \<Longrightarrow> j < n \<Longrightarrow> quiet (cs ! 0 ! j) \<and> quiet (cs ! 1 ! j)"
      by (simp_all add: I_def s)
    from q [of k] that(2) have qk: "quiet (cs ! 0 ! k)" "quiet (cs ! 1 ! k)" by simp_all
    from quiet_processEarly [OF qk(1), of input damp feed] obtain c0
      where c0: "processEarly (Some input) damp feed (cs ! 0 ! k) = Inr (0, c0)" by blast
    from quiet_processEarly [OF qk(2), of input damp feed] obtain c1
      where c1: "processEarly (Some input) damp feed (cs ! 1 ! k) = Inr (0, c1)" by blast
    define cs1 where "cs1 = vec2_upd cs 0 k c0"
    define cs2 where "cs2 = vec2_upd cs1 1 k c1"
    have a0: "vec2_at cs 0 k = Inr (cs ! 0 ! k)"
      using len l0 that(2) by (simp add: vec2_at_ok)
    have row1: "cs1 ! 1 = cs ! 1" using len by (simp add: cs1_def vec2_upd_def)
    have len1: "length cs1 = 2" using len by (simp add: cs1_def vec2_upd_def)
    have a1: "vec2_at cs1 1 k = Inr (cs ! 1 ! k)"
      using len1 l1 that(2) row1 by (simp add: vec2_at_ok)
    have res: "early_step input damp feed k s = Inr (cs2, 0, 0)"
      using a0 a1 c0 c1 o zero_plus
      by (simp add: early_step_def s cs1_def [symmetric] cs2_def)
    have r0: "cs2 ! 0 = (cs ! 0)[k := c0]" and r1: "cs2 ! 1 = (cs ! 1)[k := c1]"
      using len by (simp_all add: cs2_def cs1_def vec2_upd_def)
    have "I (Suc k) (cs2, 0, 0)"
      using len l0 l1 q r0 r1 by (simp add: I_def cs2_def cs1_def vec2_upd_def)
    with res show ?thesis by blast
  qed
  from foldE_from_invariant [of I 0 "(combs, 0, 0)" n "early_step input damp feed", OF init]
    step
  obtain s' where "foldE (early_step input damp feed) [0..<n] (combs, 0, 0) = Inr s'" "I n s'"
    by blast
  then show ?thesis by (cases s') (auto simp: I_def)
qed

lemma late_loop_quiet:
  fixes combs :: "'a::{zero,plus,minus,scaleR} Comb list list"
  assumes "length combs = 2" and "n \<le> length (combs ! 0)" and "n \<le> length (combs ! 1)"
    and "\<forall>j<n. quiet (combs ! 0 ! j) \<and> quiet (combs ! 1 ! j)"
    and zero_minus: "(0 :: 'a) - 0 = 0"
  shows "\<exists>combs'. foldE late_step [0..<n] (combs, 0, 0) = Inr (combs', 0, 0)"
proof -
  define I where "I = (\<lambda>k (s :: 'a Comb list list \<times> 'a \<times> 'a).
     case s of (cs, outL, outR) \<Rightarrow>
       outL = 0 \<and> outR = 0 \<and> length cs = 2 \<and> n \<le> length (cs ! 0) \<and> n \<le> length (cs ! 1)
       \<and> (\<forall>j. k \<le> j \<and> j < n \<longrightarrow> quiet (cs ! 0 ! j) \<and> quiet (cs ! 1 ! j)))"
  have init: "I 0 (combs, 0, 0)" using assms by (simp add: I_def)
  have step: "\<exists>s'. late_step k s = Inr s' \<and> I (Suc k) s'"
    if "0 \<le> k" "k < n" "I k s" for k s
  proof -
    obtain cs outL outR where s: "s = (cs, outL, outR)" by (cases s) auto
    from that(3) have o: "outL = 0" "outR = 0" and len: "length cs = 2"
      and l0: "n \<le> length (cs ! 0)" and l1: "n \<le> length (cs ! 1)"
      and q: "\<And>j. k \<le> j \<Longrightarrow> j < n \<Longrightarrow> quiet (cs ! 0 ! j) \<and> quiet (cs ! 1 ! j)"
      by (simp_all add: I_def s)
    from q [of k] that(2) have qk: "quiet (cs ! 0 ! k)" "quiet (cs ! 1 ! k)" by simp_all
    from quiet_processLate [OF qk(1), of 0] zero_minus obtain c0
      where c0: "processLate (Some 0) (cs ! 0 ! k) = Inr (0, c0)" by auto
    from quiet_processLate [OF qk(2), of 0] zero_minus obtain c1
      where c1: "processLate (Some 0) (cs ! 1 ! k) = Inr (0, c1)" by auto
    define cs1 where "cs1 = vec2_upd cs 0 k c0"
    define cs2 where "cs2 = vec2_upd cs1 1 k c1"
    have a0: "vec2_at cs 0 k = Inr (cs ! 0 ! k)"
      using len l0 that(2) by (simp add: vec2_at_ok)
    have row1: "cs1 ! 1 = cs ! 1" using len by (simp add: cs1_def vec2_upd_def)
    have len1: "length cs1 = 2" using len by (simp add: cs1_def vec2_upd_def)
    have a1: "vec2_at cs1 1 k = Inr (cs ! 1 ! k)"
      using len1 l1 that(2) row1 by (simp add: vec2_at_ok)
    have res: "late_step k s = Inr (cs2, 0, 0)"
      using a0 a1 c0 c1 o by (simp add: late_step_def s cs1_def [symmetric] cs2_def)
    have r0: "cs2 ! 0 = (cs ! 0)[k := c0]" and r1: "cs2 ! 1 = (cs ! 1)[k := c1]"
      using len by (simp_all add: cs2_def cs1_def vec2_upd_def)
    have "I (Suc k) (cs2, 0, 0)"
      using len l0 l1 q r0 r1 by (simp add: I_def cs2_def cs1_def vec2_upd_def)
    with res show ?thesis by blast
  qed
  from foldE_from_invariant [of I 0 "(combs, 0, 0)" n late_step, OF init] step
  obtain s' where "foldE late_step [0..<n] (combs, 0, 0) = Inr s'" "I n s'"
    by blast
  then show ?thesis by (cases s') (auto simp: I_def)
qed

lemma Reverb_process_quiet:
  fixes rv :: "'a::{zero,plus,minus,scaleR} Reverb"
  assumes "quiet_bank (unat (rp_numEarlyCombs (rv_parameters rv))) (rv_earlyCombs rv)"
    and "quiet_bank (unat (rp_numLateCombs (rv_parameters rv))) (rv_lateCombs rv)"
    and zero_plus: "(0 :: 'a) + 0 = 0" and zero_minus: "(0 :: 'a) - 0 = 0"
  shows "\<exists>rv'. Reverb_process (Some l) (Some r) rv =
     Inr ((Some (fst (getNextValue (rv_drySmooth rv)) *\<^sub>R l
                 + fst (getNextValue (rv_wet1 rv)) *\<^sub>R 0
                 + fst (getNextValue (rv_wet2 rv)) *\<^sub>R 0),
           Some (fst (getNextValue (rv_drySmooth rv)) *\<^sub>R r
                 + fst (getNextValue (rv_wet1 rv)) *\<^sub>R 0
                 + fst (getNextValue (rv_wet2 rv)) *\<^sub>R 0)), rv')"
proof -
  obtain damp ds where d: "getNextValue (rv_dampingSmooth rv) = (damp, ds)" by fastforce
  obtain feed fs where f: "getNextValue (rv_feedbackSmooth rv) = (feed, fs)" by fastforce
  obtain dd drs where dr: "getNextValue (rv_drySmooth rv) = (dd, drs)" by fastforce
  obtain w1 w1s where w1: "getNextValue (rv_wet1 rv) = (w1, w1s)" by fastforce
  obtain w2 w2s where w2: "getNextValue (rv_wet2 rv) = (w2, w2s)" by fastforce
  from early_loop_quiet [of "rv_earlyCombs rv" "unat (rp_numEarlyCombs (rv_parameters rv))"
      "rv_preGain rv *\<^sub>R (l + r)" damp feed] assms(1) zero_plus
  obtain early where e: "foldE (early_step (rv_preGain rv *\<^sub>R (l + r)) damp feed)
      [0..<unat (rp_numEarlyCombs (rv_parameters rv))] (rv_earlyCombs rv, 0, 0) = Inr (early, 0, 0)"
    by (auto simp: quiet_bank_def)
  from late_loop_quiet [of "rv_lateCombs rv" "unat (rp_numLateCombs (rv_parameters rv))"] assms(2)
    zero_minus
  obtain late where la: "foldE late_step [0..<unat (rp_numLateCombs (rv_parameters rv))]
      (rv_lateCombs rv, 0, 0) = Inr (late, 0, 0)"
    by (auto simp: quiet_bank_def)
  show ?thesis
    using d f dr w1 w2 e la by (simp add: Reverb_process_def Let_def)
qed

lemma to_uint_unit_interval: "0 \<le> x \<Longrightarrow> x < 1 \<Longrightarrow> to_uint x = 0"
proof -
  assume "0 \<le> x" "x < 1"
  then have "\<lfloor>x\<rfloor> = 0" by (simp add: floor_eq_iff)
  with \<open>0 \<le> x\<close> show ?thesis by (simp add: to_uint_def to_int_def)
qed

lemma to_uint_float32_below_one:
  "0 \<le> x \<Longrightarrow> x \<le> 9 / 10 \<Longrightarrow> to_uint (float32 x) = 0"
  using float32_below_one [of x] by (simp add: to_uint_unit_interval)

lemma SetTime_Comb_init:
  assumes "1 / 1000 \<le> t" and "t < 1 / 10"
  shows "SetTime t Comb_init =
     \<lparr>cb_buffer = \<lparr>rb_buffer = \<lparr>hb_data = replicate 4410 0, hb_size = 4410\<rparr>, rb_size = 4410,
        rb_writeIndex = 0, rb_sampleRate = 44100, rb_delaySmoothTime = 1 / 10,
        rb_delayTime = \<lparr>sv_currentValue = 0, sv_target = t, sv_countdown = 4410,
                        sv_step = t / 4410, sv_stepsToTarget = 4410\<rparr>\<rparr>,
      cb_previousValue = 0\<rparr>"
  using assms
  by (simp add: SetTime_def Comb_init_eq setDelayTime_def clamp_def setClamp_def
        of_uint_rates SmoothedValue_reset_def setCurrentAndTargetValue_def setTargetValue_def
        SmoothedValue_init_def float32_exact float32_inexact Let_def)

lemma fresh_comb_eq:
  assumes "1 / 1000 \<le> t" and "t < 1 / 10"
  shows "Comb_clear (Comb_prepare 44100 (SetTime t Comb_init)) = SetTime t Comb_init"
  unfolding SetTime_Comb_init [OF assms]
  by (simp add: Comb_clear_def Comb_prepare_def RingBuffer_prepare_seconds_def of_uint_rates
        to_uint_sizes RingBuffer_prepare_def RingBuffer_clear_def initialise_def setClamp_def
        Let_def)

lemma quiet_fresh:
  assumes "1 / 1000 \<le> t" and "t \<le> 9 / 100"
  shows "quiet (SetTime t Comb_init)"
proof -
  have t: "t < 1 / 10" using assms(2) by simp
  have "0 \<le> 10 * t" "10 * t \<le> 9 / 10" using assms by simp_all
  then have "to_uint (float32 (10 * t)) = 0" by (rule to_uint_float32_below_one)
  then show ?thesis
    unfolding SetTime_Comb_init [OF assms(1) t]
    by (simp add: quiet_def rb_ok_def getNextValue_def isSmoothing_def of_uint_rates
          float32_exact Let_def)
qed


lemma replicate_2: "replicate 2 x = [x, x]" by (simp add: numeral_eq_Suc)
lemma replicate_4: "replicate 4 x = [x, x, x, x]" by (simp add: numeral_eq_Suc)
lemma replicate_8: "replicate 8 x = [x, x, x, x, x, x, x, x]" by (simp add: numeral_eq_Suc)

lemmas reverb_loop_defs = replicate_2 replicate_4 replicate_8 setCombs_def prepareCombs_def Reverb_clear_def vec2_at_def vec_at_def
  vec2_upd_def upt_2 upt_4 upt_8

lemma Reverb_init_eq:
  "Reverb_init = Inr
     \<lparr>rv_sampleRate = 44100, rv_preGain = 0, rv_wet = 0, rv_dry = 0,
      rv_dampingSmooth = (SmoothedValue_init 0)\<lparr>sv_stepsToTarget := 2205\<rparr>,
      rv_feedbackSmooth = (SmoothedValue_init 0)\<lparr>sv_stepsToTarget := 2205\<rparr>,
      rv_wet1 = (SmoothedValue_init 0)\<lparr>sv_stepsToTarget := 2205\<rparr>,
      rv_wet2 = (SmoothedValue_init 0)\<lparr>sv_stepsToTarget := 2205\<rparr>,
      rv_drySmooth = (SmoothedValue_init 0)\<lparr>sv_stepsToTarget := 2205\<rparr>,
      rv_parameters = Reverb_Parameters_default,
      rv_earlyCombs = [map (\<lambda>t. SetTime t Comb_init)
                         [3 / 50, 1 / 25, 1 / 50, 1 / 100, 13 / 250, 9 / 250, 21 / 500, 3 / 125],
                       map (\<lambda>t. SetTime t Comb_init)
                         [3 / 50, 1 / 25, 1 / 50, 1 / 100, 13 / 250, 9 / 250, 21 / 500, 3 / 125]],
      rv_lateCombs = [map (\<lambda>t. SetTime t Comb_init) [11 / 1000, 27 / 500, 33 / 1000, 23 / 1000],
                      map (\<lambda>t. SetTime t Comb_init) [11 / 1000, 27 / 500, 33 / 1000, 23 / 1000]],
      rv_earlyCombTimes = [3 / 50, 1 / 25, 1 / 50, 1 / 100, 13 / 250, 9 / 250, 21 / 500, 3 / 125],
      rv_lateCombTimes = [11 / 1000, 27 / 500, 33 / 1000, 23 / 1000]\<rparr>"
  by (simp add: Reverb_init_def Reverb_prepare_def reverb_loop_defs Reverb_Parameters_default_def
        clamp_def of_uint_rates SmoothedValue_reset_def setCurrentAndTargetValue_def
        SmoothedValue_init_def fresh_comb_eq Let_def)

lemma quiet_bank_fresh:
  assumes "\<forall>t \<in> set ts. 1 / 1000 \<le> t \<and> t \<le> 9 / 100" and "n \<le> length ts"
  shows "quiet_bank n [map (\<lambda>t. SetTime t (Comb_init :: real Comb)) ts,
                       map (\<lambda>t. SetTime t Comb_init) ts]"
proof -
  have "quiet (map (\<lambda>t. SetTime t (Comb_init :: real Comb)) ts ! j)" if "j < n" for j
  proof -
    from that assms(2) have j: "j < length ts" by simp
    then have "ts ! j \<in> set ts" by (rule nth_mem)
    with assms(1) have "quiet (SetTime (ts ! j) (Comb_init :: real Comb))"
      by (auto intro: quiet_fresh)
    with j show ?thesis by simp
  qed
  with assms(2) show ?thesis by (simp add: quiet_bank_def)
qed

lemma quiet_bank_early:
  "quiet_bank 8 [map (\<lambda>t. SetTime t (Comb_init :: real Comb))
                         [3 / 50, 1 / 25, 1 / 50, 1 / 100, 13 / 250, 9 / 250, 21 / 500, 3 / 125],
                       map (\<lambda>t. SetTime t Comb_init)
                         [3 / 50, 1 / 25, 1 / 50, 1 / 100, 13 / 250, 9 / 250, 21 / 500, 3 / 125]]"
  by (rule quiet_bank_fresh) simp_all

lemma quiet_bank_late:
  "quiet_bank 4 [map (\<lambda>t. SetTime t (Comb_init :: real Comb))
                   [11 / 1000, 27 / 500, 33 / 1000, 23 / 1000],
                 map (\<lambda>t. SetTime t Comb_init) [11 / 1000, 27 / 500, 33 / 1000, 23 / 1000]]"
  by (rule quiet_bank_fresh) simp_all

text \<open>
  C1: a reverb whose parameters were set with \<open>mix = 0\<close> leaves \<open>(l, r)\<close> unchanged, because
  \<open>dry = 1\<close>. \<open>setParameters\<close> computes \<open>dry\<close> and \<open>wet\<close> only when the mix differs from the
  previous one, and the constructor leaves \<open>dry = 0\<close> beside \<open>mix = 0\<close>: on a newly
  constructed reverb set to \<open>mix = 0\<close> the dry gain stays 0 (at rest, no ramp pending) and
  \<open>process\<close> replaces every pair of samples by silence.
\<close>

theorem fresh_reverb_mix0_is_silent:
  "Reverb_fresh_mix0 l r = Inr (Some 0, Some 0)"
proof -
  obtain R0 :: "real Reverb" where R0: "Reverb_init = Inr R0"
    and p: "rv_parameters R0 = Reverb_Parameters_default"
    and e: "rv_earlyCombs R0 = [map (\<lambda>t. SetTime t Comb_init)
                         [3 / 50, 1 / 25, 1 / 50, 1 / 100, 13 / 250, 9 / 250, 21 / 500, 3 / 125],
                       map (\<lambda>t. SetTime t Comb_init)
                         [3 / 50, 1 / 25, 1 / 50, 1 / 100, 13 / 250, 9 / 250, 21 / 500, 3 / 125]]"
    and la: "rv_lateCombs R0 =
        [map (\<lambda>t. SetTime t Comb_init) [11 / 1000, 27 / 500, 33 / 1000, 23 / 1000],
         map (\<lambda>t. SetTime t Comb_init) [11 / 1000, 27 / 500, 33 / 1000, 23 / 1000]]"
    and d: "rv_dry R0 = 0" and w: "rv_wet R0 = 0"
    and ds: "rv_drySmooth R0 = (SmoothedValue_init 0)\<lparr>sv_stepsToTarget := 2205\<rparr>"
    and w1: "rv_wet1 R0 = (SmoothedValue_init 0)\<lparr>sv_stepsToTarget := 2205\<rparr>"
    and w2: "rv_wet2 R0 = (SmoothedValue_init 0)\<lparr>sv_stepsToTarget := 2205\<rparr>"
    using Reverb_init_eq [where ?'a = real] by simp
  define R1 where "R1 = R0\<lparr>rv_preGain := 1 / 120\<rparr>"
  have set: "Reverb_setParameters Reverb_Parameters_default R0 = Inr R1"
    using p d w ds w1 w2
    by (simp add: Reverb_setParameters_def Let_def R1_def Reverb_Parameters_default_def
          setTargetValue_def SmoothedValue_init_def of_uint_def)
  have n: "unat (rp_numEarlyCombs (rv_parameters R1)) = 8"
          "unat (rp_numLateCombs (rv_parameters R1)) = 4"
    using p by (simp_all add: R1_def Reverb_Parameters_default_def)
  have dry: "fst (getNextValue (rv_drySmooth R1)) = 0"
    using ds by (simp add: R1_def getNextValue_def isSmoothing_def SmoothedValue_init_def)
  from Reverb_process_quiet [of R1 l r] n e la quiet_bank_early quiet_bank_late
  obtain rv' where "Reverb_process (Some l) (Some r) R1 =
     Inr ((Some (fst (getNextValue (rv_drySmooth R1)) * l),
           Some (fst (getNextValue (rv_drySmooth R1)) * r)), rv')"
    by (auto simp: R1_def)
  then have pr: "Reverb_process (Some l) (Some r) R1 = Inr ((Some 0, Some 0), rv')"
    by (simp add: dry)
  show ?thesis by (simp add: Reverb_fresh_mix0_def R0 set pr)
qed

theorem fresh_reverb_mix0_is_silent_witness:
  "Reverb_fresh_mix0 1 1 = Inr (Some 0, Some 0)"
  by (rule fresh_reverb_mix0_is_silent)

text \<open>
  Once \<open>setMixValues\<close> has run for \<open>mix = 0\<close> and the gains are at rest, \<open>process\<close> is the
  bypass that C1 describes.
\<close>

lemma setMixValues_mix0:
  "rp_mix (rv_parameters rv) = 0 \<Longrightarrow>
     rv_dry (setMixValues rv) = 1 \<and> rv_wet (setMixValues rv) = 0"
  by (simp add: setMixValues_def clamp_def ExpRounder_def map_range_def Let_def)

lemma sv_target_setTargetValue: "sv_target (setTargetValue v sv) = v"
  by (simp add: setTargetValue_def setCurrentAndTargetValue_def)

lemma Reverb_setParameters_to_mix0:
  assumes "rp_mix p = 0" and "rp_mix (rv_parameters rv) \<noteq> 0"
    and "rp_spread p = rp_spread (rv_parameters rv)"
  shows "\<exists>rv'. Reverb_setParameters p rv = Inr rv' \<and> rv_dry rv' = 1 \<and> rv_wet rv' = 0
           \<and> sv_target (rv_drySmooth rv') = 1 \<and> sv_target (rv_wet1 rv') = 0
           \<and> sv_target (rv_wet2 rv') = 0"
  using assms
  by (simp add: Reverb_setParameters_def Let_def sv_target_setTargetValue setDamping_def
        setMixValues_def clamp_def ExpRounder_def map_range_def)

lemma Reverb_process_bypass:
  fixes rv :: "real Reverb"
  assumes "Reverb_process (Some l) (Some r) rv = Inr ((l', r'), rv')"
    and "sv_countdown (rv_drySmooth rv) \<le> 0" and "sv_target (rv_drySmooth rv) = 1"
    and "sv_countdown (rv_wet1 rv) \<le> 0" and "sv_target (rv_wet1 rv) = 0"
    and "sv_countdown (rv_wet2 rv) \<le> 0" and "sv_target (rv_wet2 rv) = 0"
  shows "l' = Some l \<and> r' = Some r"
  using assms
  by (auto simp: Reverb_process_def Let_def bindE_Inr getNextValue_at_rest
      split: prod.splits)

section \<open>The signal chain\<close>

subsection \<open>Arithmetic and order on samples\<close>

lemma sample_arith [simp]:
  "Num a + Num b = Num (a + b)" "NaN + y = NaN" "x + NaN = NaN"
  "Num a - Num b = Num (a - b)" "NaN - y = NaN" "x - NaN = NaN"
  "r *\<^sub>R Num a = Num (r * a)" "r *\<^sub>R NaN = NaN"
  by (simp_all add: plus_sample_def minus_sample_def scaleR_sample_def split: sample.splits)

lemma sample_order [simp]:
  "(Num a < Num b) = (a < b)" "(Num a \<le> Num b) = (a \<le> b)"
  "\<not> NaN < y" "\<not> x < NaN" "\<not> NaN \<le> y" "\<not> x \<le> NaN"
  by (simp_all add: less_sample_def less_eq_sample_def split: sample.splits)

text \<open>The hard clip bounds every number and hands a NaN on as it is.\<close>

lemma setClamp_Num:
  "lo \<le> hi \<Longrightarrow> \<exists>c. setClamp (Num a) (Num lo) (Num hi) = Num c \<and> lo \<le> c \<and> c \<le> hi"
  by (simp add: setClamp_def)

lemma setClamp_NaN: "setClamp NaN (Num lo) (Num hi) = NaN"
  by (simp add: setClamp_def)

lemma setClamp_sample:
  "setClamp v (Num (- 1.2)) (Num 1.2) = NaN \<or> within_clip (setClamp v (Num (- 1.2)) (Num 1.2))"
proof (cases v)
  case (Num a)
  from setClamp_Num [of "- 1.2" "1.2" a] show ?thesis
    by (auto simp: Num within_clip_def)
next
  case NaN
  then show ?thesis by (simp add: setClamp_NaN)
qed

subsection \<open>The clip at the end of every round\<close>

lemma process_sample_effect:
  assumes "process_sample i (l, r, rp) = Inr (l', r', rp')"
  shows "i < length l \<and> i < length r
       \<and> (\<exists>a c. l' = l[i := a] \<and> r' = r[i := c]
              \<and> (a = NaN \<or> within_clip a) \<and> (c = NaN \<or> within_clip c))"
proof -
  from assms obtain inL inR hL hR pL pR where
    il: "vec_at l i = Inr inL" and ir: "vec_at r i = Inr inR"
    and l': "l' = l[i := setClamp (case pL of None \<Rightarrow> hL | Some v \<Rightarrow> v) (Num (- 1.2)) (Num 1.2)]"
    and r': "r' = r[i := setClamp (case pR of None \<Rightarrow> hR | Some v \<Rightarrow> v) (Num (- 1.2)) (Num 1.2)]"
    by (auto simp: process_sample_def bindE_Inr Let_def split: prod.splits)
  from il ir have "i < length l" "i < length r"
    by (auto simp: vec_at_def split: if_splits)
  then show ?thesis using l' r' setClamp_sample by blast
qed

lemma foldE_Cons_Inr:
  "foldE body (i # is) s = Inr s' \<Longrightarrow> \<exists>s1. body i s = Inr s1 \<and> foldE body is s1 = Inr s'"
  by (cases "body i s") simp_all

lemma process_loop_keeps:
  assumes "foldE process_sample is (l, r, rp) = Inr (l', r', rp')"
  shows "length l' = length l \<and> length r' = length r
       \<and> (l ! j = NaN \<or> within_clip (l ! j) \<longrightarrow> l' ! j = NaN \<or> within_clip (l' ! j))
       \<and> (r ! j = NaN \<or> within_clip (r ! j) \<longrightarrow> r' ! j = NaN \<or> within_clip (r' ! j))"
  using assms
proof (induction "is" arbitrary: l r rp)
  case Nil
  then show ?case by simp
next
  case (Cons i "is")
  from foldE_Cons_Inr [OF Cons.prems] obtain l1 r1 rp1
    where st: "process_sample i (l, r, rp) = Inr (l1, r1, rp1)"
      and rest: "foldE process_sample is (l1, r1, rp1) = Inr (l', r', rp')"
    by (metis prod_cases3)
  from process_sample_effect [OF st] obtain a c
    where il: "i < length l" and ir: "i < length r"
      and l1: "l1 = l[i := a]" and r1: "r1 = r[i := c]"
      and a: "a = NaN \<or> within_clip a" and c: "c = NaN \<or> within_clip c"
    by auto
  have "l ! j = NaN \<or> within_clip (l ! j) \<longrightarrow> l1 ! j = NaN \<or> within_clip (l1 ! j)"
    using il a by (cases "j = i") (simp_all add: l1)
  moreover have "r ! j = NaN \<or> within_clip (r ! j) \<longrightarrow> r1 ! j = NaN \<or> within_clip (r1 ! j)"
    using ir c by (cases "j = i") (simp_all add: r1)
  moreover have "length l1 = length l" "length r1 = length r" by (simp_all add: l1 r1)
  ultimately show ?case using Cons.IH [OF rest] by auto
qed

lemma process_loop_clips:
  assumes "foldE process_sample is (l, r, rp) = Inr (l', r', rp')" and "j \<in> set is"
  shows "(l' ! j = NaN \<or> within_clip (l' ! j)) \<and> (r' ! j = NaN \<or> within_clip (r' ! j))"
  using assms
proof (induction "is" arbitrary: l r rp)
  case Nil
  then show ?case by simp
next
  case (Cons i "is")
  from foldE_Cons_Inr [OF Cons.prems(1)] obtain l1 r1 rp1
    where st: "process_sample i (l, r, rp) = Inr (l1, r1, rp1)"
      and rest: "foldE process_sample is (l1, r1, rp1) = Inr (l', r', rp')"
    by (metis prod_cases3)
  from process_sample_effect [OF st] obtain a c
    where il: "i < length l" and ir: "i < length r"
      and l1: "l1 = l[i := a]" and r1: "r1 = r[i := c]"
      and a: "a = NaN \<or> within_clip a" and c: "c = NaN \<or> within_clip c"
    by auto
  show ?case
  proof (cases "j = i")
    case True
    have "l1 ! j = NaN \<or> within_clip (l1 ! j)" "r1 ! j = NaN \<or> within_clip (r1 ! j)"
      using il ir a c True by (simp_all add: l1 r1)
    with process_loop_keeps [OF rest, of j] show ?thesis by simp
  next
    case False
    with Cons.prems(2) have "j \<in> set is" by simp
    from Cons.IH [OF rest this] show ?thesis .
  qed
qed

text \<open>
  C9, amended: for every call of \<open>RiserProcessor::process\<close> with non-null channel pointers
  and \<open>numSamples > 0\<close> that returns, from every prior state, the arrays keep their
  lengths and every sample written back, at the indices below \<open>numSamples\<close>, is NaN or
  lies within \<open>[-1.2, 1.2]\<close>.
\<close>

theorem safety_clip:
  assumes "RiserProcessor_process (Some left) (Some right) numSamples rp
             = Inr (left', right', rp')"
    and "0 < numSamples"
  shows "\<exists>l' r'. left' = Some l' \<and> right' = Some r'
           \<and> length l' = length left \<and> length r' = length right
           \<and> (\<forall>i<nat numSamples. (l' ! i = NaN \<or> within_clip (l' ! i))
                                   \<and> (r' ! i = NaN \<or> within_clip (r' ! i)))"
proof -
  from assms obtain l' r' where
    f: "foldE process_sample [0..<nat numSamples] (left, right, rp) = Inr (l', r', rp')"
    and o: "left' = Some l'" "right' = Some r'"
    by (auto simp: RiserProcessor_process_def bindE_Inr)
  have "(l' ! i = NaN \<or> within_clip (l' ! i)) \<and> (r' ! i = NaN \<or> within_clip (r' ! i))"
    if "i < nat numSamples" for i
  proof -
    from that have "i \<in> set [0..<nat numSamples]" by simp
    from process_loop_clips [OF f this] show ?thesis .
  qed
  with o process_loop_keeps [OF f] show ?thesis by simp
qed

subsection \<open>A NaN goes through the chain\<close>

text \<open>
  Every stage computes its output from its input by additions and multiplications, so a NaN
  that enters a stage leaves it, whatever the state of the stage; the clip hands it on, and
  later rounds of the loop write to other indices. From every state, a NaN in an input
  array is a NaN in the array that \<open>process\<close> leaves behind.
\<close>

lemma CombFilter_process_NaN:
  "CombFilter_process (Some NaN) cf = Inr (y, cf') \<Longrightarrow> y = NaN"
  by (auto simp: CombFilter_process_def Let_def split: sum.splits prod.splits)

lemma Filter_process_NaN:
  "Filter_process (Some NaN) f = Inr (y, f') \<Longrightarrow> y = NaN"
  by (auto simp: Filter_process_def Let_def split: if_splits)

lemma Reverb_process_NaN:
  assumes "Reverb_process (Some l) (Some r) rv = Inr ((pL, pR), rv')"
  shows "(l = NaN \<longrightarrow> pL = Some NaN) \<and> (r = NaN \<longrightarrow> pR = Some NaN)"
proof -
  obtain d drs where dr: "getNextValue (rv_drySmooth rv) = (d, drs)" by fastforce
  obtain w1 w1s where w1: "getNextValue (rv_wet1 rv) = (w1, w1s)" by fastforce
  obtain w2 w2s where w2: "getNextValue (rv_wet2 rv) = (w2, w2s)" by fastforce
  from assms dr w1 w2 obtain outL outR
    where "pL = Some (d *\<^sub>R l + w1 *\<^sub>R outL + w2 *\<^sub>R outR)"
      and "pR = Some (d *\<^sub>R r + w1 *\<^sub>R outR + w2 *\<^sub>R outL)"
    by (auto simp: Reverb_process_def Let_def bindE_Inr split: prod.splits)
  then show ?thesis by auto
qed

lemma process_sample_NaN:
  assumes "process_sample i (l, r, rp) = Inr (l', r', rp')"
  shows "(l ! i = NaN \<longrightarrow> l' ! i = NaN) \<and> (r ! i = NaN \<longrightarrow> r' ! i = NaN)"
proof -
  from assms obtain inL inR fL fR lL lR hL hR pL pR fl0 fl1 lp0 lp1 hp0 hp1 rv where
    il: "vec_at l i = Inr inL" and ir: "vec_at r i = Inr inR"
    and c0: "CombFilter_process (Some inL) (fst (ri_flanger rp)) = Inr (fL, fl0)"
    and c1: "CombFilter_process (Some inR) (snd (ri_flanger rp)) = Inr (fR, fl1)"
    and f0: "Filter_process (Some fL) (fst (ri_lowpass rp)) = Inr (lL, lp0)"
    and f1: "Filter_process (Some fR) (snd (ri_lowpass rp)) = Inr (lR, lp1)"
    and h0: "Filter_process (Some lL) (fst (ri_highpass rp)) = Inr (hL, hp0)"
    and h1: "Filter_process (Some lR) (snd (ri_highpass rp)) = Inr (hR, hp1)"
    and rv: "Reverb_process (Some hL) (Some hR) (ri_reverb rp) = Inr ((pL, pR), rv)"
    and l': "l' = l[i := setClamp (case pL of None \<Rightarrow> hL | Some v \<Rightarrow> v) (Num (- 1.2)) (Num 1.2)]"
    and r': "r' = r[i := setClamp (case pR of None \<Rightarrow> hR | Some v \<Rightarrow> v) (Num (- 1.2)) (Num 1.2)]"
    by (auto simp: process_sample_def bindE_Inr Let_def split: prod.splits)
  from il ir have len: "i < length l" "i < length r" and inL: "inL = l ! i" and inR: "inR = r ! i"
    by (auto simp: vec_at_def split: if_splits)
  have "l' ! i = NaN" if "l ! i = NaN"
  proof -
    from that inL c0 have "fL = NaN" by (auto dest: CombFilter_process_NaN)
    with f0 have "lL = NaN" by (auto dest: Filter_process_NaN)
    with h0 have "hL = NaN" by (auto dest: Filter_process_NaN)
    with Reverb_process_NaN [OF rv] have "pL = Some NaN" by simp
    with l' len show ?thesis by (simp add: setClamp_NaN)
  qed
  moreover have "r' ! i = NaN" if "r ! i = NaN"
  proof -
    from that inR c1 have "fR = NaN" by (auto dest: CombFilter_process_NaN)
    with f1 have "lR = NaN" by (auto dest: Filter_process_NaN)
    with h1 have "hR = NaN" by (auto dest: Filter_process_NaN)
    with Reverb_process_NaN [OF rv] have "pR = Some NaN" by simp
    with r' len show ?thesis by (simp add: setClamp_NaN)
  qed
  ultimately show ?thesis by simp
qed

lemma process_loop_NaN:
  assumes "foldE process_sample is (l, r, rp) = Inr (l', r', rp')"
  shows "(l ! j = NaN \<longrightarrow> l' ! j = NaN) \<and> (r ! j = NaN \<longrightarrow> r' ! j = NaN)"
  using assms
proof (induction "is" arbitrary: l r rp)
  case Nil
  then show ?case by simp
next
  case (Cons i "is")
  from foldE_Cons_Inr [OF Cons.prems] obtain l1 r1 rp1
    where st: "process_sample i (l, r, rp) = Inr (l1, r1, rp1)"
      and rest: "foldE process_sample is (l1, r1, rp1) = Inr (l', r', rp')"
    by (metis prod_cases3)
  from process_sample_effect [OF st] obtain a c
    where l1: "l1 = l[i := a]" and r1: "r1 = r[i := c]" by auto
  have "l ! j = NaN \<longrightarrow> l1 ! j = NaN"
    using process_sample_NaN [OF st] by (cases "j = i") (simp_all add: l1)
  moreover have "r ! j = NaN \<longrightarrow> r1 ! j = NaN"
    using process_sample_NaN [OF st] by (cases "j = i") (simp_all add: r1)
  ultimately show ?case using Cons.IH [OF rest] by auto
qed

lemma process_writes_NaN_back:
  assumes "RiserProcessor_process (Some left) (Some right) numSamples rp
             = Inr (Some l', Some r', rp')"
  shows "(left ! j = NaN \<longrightarrow> l' ! j = NaN) \<and> (right ! j = NaN \<longrightarrow> r' ! j = NaN)"
proof (cases "numSamples \<le> 0")
  case True
  with assms show ?thesis by (simp add: RiserProcessor_process_def)
next
  case False
  with assms have "foldE process_sample [0..<nat numSamples] (left, right, rp) = Inr (l', r', rp')"
    by (auto simp: RiserProcessor_process_def bindE_Inr)
  from process_loop_NaN [OF this] show ?thesis .
qed

subsection \<open>One round of the example chain\<close>

lemma Reverb_example_eq:
  "Reverb_example =
     \<lparr>rv_sampleRate = 10, rv_preGain = 1 / 120, rv_wet = 0, rv_dry = 1,
      rv_dampingSmooth = SmoothedValue_init 0,
      rv_feedbackSmooth = SmoothedValue_init 0,
      rv_wet1 = SmoothedValue_init 0,
      rv_wet2 = SmoothedValue_init 0,
      rv_drySmooth = SmoothedValue_init 1,
      rv_parameters = Reverb_Parameters_default,
      rv_earlyCombs = [map comb10
                         [3 / 50, 1 / 25, 1 / 50, 1 / 100, 13 / 250, 9 / 250, 21 / 500, 3 / 125],
                       map comb10
                         [3 / 50, 1 / 25, 1 / 50, 1 / 100, 13 / 250, 9 / 250, 21 / 500, 3 / 125]],
      rv_lateCombs = [map comb10 [11 / 1000, 27 / 500, 33 / 1000, 23 / 1000],
                      map comb10 [11 / 1000, 27 / 500, 33 / 1000, 23 / 1000]],
      rv_earlyCombTimes = [3 / 50, 1 / 25, 1 / 50, 1 / 100, 13 / 250, 9 / 250, 21 / 500, 3 / 125],
      rv_lateCombTimes = [11 / 1000, 27 / 500, 33 / 1000, 23 / 1000]\<rparr>"
  by (simp add: Reverb_example_def Reverb_init_eq Reverb_prepare_def prepareCombs_def
        Reverb_clear_def vec_at_def upt_2 Reverb_setParameters_def setMixValues_def
        Reverb_Parameters_default_def ExpRounder_def map_range_def wetGainScale_def
        clamp_def of_uint_def SmoothedValue_reset_def setCurrentAndTargetValue_def
        setTargetValue_def SmoothedValue_init_def comb10_def Let_def)

lemma comb10_eq:
  assumes "1 / 1000 \<le> t" and "t < 1 / 10"
  shows "(comb10 t :: 'a::zero Comb) =
     \<lparr>cb_buffer = \<lparr>rb_buffer = \<lparr>hb_data = [0], hb_size = 1\<rparr>, rb_size = 1,
        rb_writeIndex = 0, rb_sampleRate = 10, rb_delaySmoothTime = 1 / 10,
        rb_delayTime = \<lparr>sv_currentValue = 0, sv_target = t, sv_countdown = 4410,
                        sv_step = t / 4410, sv_stepsToTarget = 4410\<rparr>\<rparr>,
      cb_previousValue = 0\<rparr>"
proof -
  have t1: "take 1 (replicate 4410 (0 :: 'a)) = [0]"
    by (simp add: take_Suc_conv_app_nth)
  show ?thesis
    unfolding comb10_def SetTime_Comb_init [OF assms]
    using t1
    by (simp add: Comb_clear_def Comb_prepare_def RingBuffer_prepare_seconds_def of_uint_rates
        to_uint_sizes RingBuffer_prepare_def RingBuffer_clear_def initialise_def reallocate_def
        setClamp_def Let_def)
qed

lemma quiet_comb10:
  assumes "1 / 1000 \<le> t" and "t < 1 / 10"
  shows "quiet (comb10 t :: 'a::zero Comb)"
proof -
  have "0 \<le> t / 441" "t / 441 \<le> 9 / 10" using assms by simp_all
  then have "to_uint (float32 (t / 441)) = 0" by (rule to_uint_float32_below_one)
  then show ?thesis
    unfolding comb10_eq [OF assms]
    by (simp add: quiet_def rb_ok_def getNextValue_def isSmoothing_def of_uint_rates
          float32_exact Let_def)
qed

lemma quiet_bank_comb10:
  assumes "\<forall>t \<in> set ts. 1 / 1000 \<le> t \<and> t < 1 / 10" and "n \<le> length ts"
  shows "quiet_bank n [map comb10 ts, map comb10 ts :: 'a::zero Comb list]"
proof -
  have "quiet (map comb10 ts ! j :: 'a Comb)" if "j < n" for j
  proof -
    from that assms(2) have j: "j < length ts" by simp
    then have "ts ! j \<in> set ts" by (rule nth_mem)
    with assms(1) have "quiet (comb10 (ts ! j) :: 'a Comb)" by (auto intro: quiet_comb10)
    with j show ?thesis by simp
  qed
  with assms(2) show ?thesis by (simp add: quiet_bank_def)
qed

text \<open>
  The example reverb is a bypass for numbers. A NaN on one channel comes out as NaN on that
  channel; the other channel is left as it is, because the combs still hold silence.
\<close>

lemma Reverb_example_process:
  "\<exists>rv'. Reverb_process (Some l) (Some r) (Reverb_example :: sample Reverb)
           = Inr ((Some l, Some r), rv')"
proof -
  have "quiet_bank 8
      [map comb10 [3 / 50, 1 / 25, 1 / 50, 1 / 100, 13 / 250, 9 / 250, 21 / 500, 3 / 125],
       map comb10 [3 / 50, 1 / 25, 1 / 50, 1 / 100, 13 / 250, 9 / 250, 21 / 500, 3 / 125]
         :: sample Comb list]"
    by (rule quiet_bank_comb10) simp_all
  then have e: "quiet_bank (unat (rp_numEarlyCombs (rv_parameters (Reverb_example :: sample Reverb))))
             (rv_earlyCombs (Reverb_example :: sample Reverb))"
    by (simp add: Reverb_example_eq Reverb_Parameters_default_def)
  have "quiet_bank 4
      [map comb10 [11 / 1000, 27 / 500, 33 / 1000, 23 / 1000],
       map comb10 [11 / 1000, 27 / 500, 33 / 1000, 23 / 1000] :: sample Comb list]"
    by (rule quiet_bank_comb10) simp_all
  then have la: "quiet_bank (unat (rp_numLateCombs (rv_parameters (Reverb_example :: sample Reverb))))
             (rv_lateCombs (Reverb_example :: sample Reverb))"
    by (simp add: Reverb_example_eq Reverb_Parameters_default_def)
  have g: "fst (getNextValue (rv_drySmooth (Reverb_example :: sample Reverb))) = 1"
      "fst (getNextValue (rv_wet1 (Reverb_example :: sample Reverb))) = 0"
      "fst (getNextValue (rv_wet2 (Reverb_example :: sample Reverb))) = 0"
    by (simp_all add: Reverb_example_eq getNextValue_def isSmoothing_def SmoothedValue_init_def)
  have z: "(0 :: sample) + 0 = 0" "(0 :: sample) - 0 = 0"
    by (simp_all add: zero_sample_def)
  have m: "1 *\<^sub>R x + 0 *\<^sub>R 0 + 0 *\<^sub>R 0 = x" for x :: sample
    by (cases x) (simp_all add: zero_sample_def)
  from Reverb_process_quiet [OF e la z, of l r] show ?thesis by (simp add: g m)
qed

lemma flanger_example_eq:
  "flanger_example =
     \<lparr>cf_delay = \<lparr>rb_buffer = \<lparr>hb_data = [Num 3], hb_size = 1\<rparr>, rb_size = 1, rb_writeIndex = 0,
        rb_sampleRate = 1, rb_delaySmoothTime = 3 / 100,
        rb_delayTime = \<lparr>sv_currentValue = 1, sv_target = 1, sv_countdown = 0, sv_step = 0,
                        sv_stepsToTarget = 0\<rparr>\<rparr>,
      cf_parameters = \<lparr>cp_freq = 1, cp_wet = 1 / 2, cp_feedback = 1, cp_interpType = noInterp\<rparr>\<rparr>"
  by (simp add: flanger_example_def CombFilter_setParameters_rate1 CombFilter_process_def
        getDelay_noInterp_eval pushToBuffer_single_cell zero_sample_def)

text \<open>The comb of the example adds half of the stored 3 to a number, and hands a NaN on.\<close>

lemma flanger_example_process:
  "\<exists>cf'. CombFilter_process (Some x) flanger_example = Inr (x + Num (3 / 2), cf')"
  by (simp add: flanger_example_eq CombFilter_process_def getDelay_noInterp_eval
        pushToBuffer_single_cell)

text \<open>A newly constructed filter has \<open>a0 = 1\<close> and nothing else: it hands every sample on.\<close>

lemma Filter_init_process:
  "\<exists>f'. Filter_process (Some x) (Filter_init :: sample Filter) = Inr (x, f')"
  by (cases x)
     (simp_all add: Filter_process_def Filter_init_def Filter_Parameters_default_def
        zero_sample_def Let_def)

lemma process_sample_example:
  assumes "xL + Num (3 / 2) = yL" and "xR + Num (3 / 2) = yR"
  shows "\<exists>rp'. process_sample 0 ([xL], [xR], RiserProcessor_example)
           = Inr ([setClamp yL (Num (- 1.2)) (Num 1.2)], [setClamp yR (Num (- 1.2)) (Num 1.2)], rp')"
proof -
  obtain fl0 where c0: "CombFilter_process (Some xL) flanger_example = Inr (yL, fl0)"
    using flanger_example_process [of xL] assms(1) by auto
  obtain fl1 where c1: "CombFilter_process (Some xR) flanger_example = Inr (yR, fl1)"
    using flanger_example_process [of xR] assms(2) by auto
  obtain f0 where f0: "Filter_process (Some yL) (Filter_init :: sample Filter) = Inr (yL, f0)"
    using Filter_init_process by blast
  obtain f1 where f1: "Filter_process (Some yR) (Filter_init :: sample Filter) = Inr (yR, f1)"
    using Filter_init_process by blast
  obtain rv' where rv: "Reverb_process (Some yL) (Some yR) (Reverb_example :: sample Reverb)
      = Inr ((Some yL, Some yR), rv')"
    using Reverb_example_process by blast
  show ?thesis
    using c0 c1 f0 f1 rv
    by (simp add: process_sample_def vec_at_def RiserProcessor_example_def Let_def)
qed

lemma processed_example:
  assumes "xL + Num (3 / 2) = yL" and "xR + Num (3 / 2) = yR"
  shows "processed [xL] [xR] 1 RiserProcessor_example
           = Inr (Some [setClamp yL (Num (- 1.2)) (Num 1.2)],
                  Some [setClamp yR (Num (- 1.2)) (Num 1.2)])"
  using process_sample_example [OF assms]
  by (auto simp: processed_def RiserProcessor_process_def)

text \<open>
  C9 as stated fails: a NaN in the left array goes through the comb filter, both filters
  and the reverb as NaN, no comparison of the clip holds for it, and it is written back
  (from every state, by \<open>process_writes_NaN_back\<close>; here from the example chain). The
  number 0 beside it comes back as 1.2, the clipped 1.5.
\<close>

theorem safety_clip_lets_NaN_through:
  "processed [NaN] [Num 0] 1 RiserProcessor_example = Inr (Some [NaN], Some [Num (6 / 5)])
   \<and> \<not> within_clip ([NaN] ! 0)"
  using processed_example [of NaN NaN "Num 0" "Num (3 / 2)"]
  by (simp add: setClamp_def within_clip_def)

theorem safety_clip_witness:
  "\<exists>l' r' rp'.
     RiserProcessor_process (Some [Num 5]) (Some [Num (- 7)]) 1 RiserProcessor_example
       = Inr (Some l', Some r', rp')
     \<and> l' = [Num (6 / 5)] \<and> r' = [Num (- (6 / 5))]
     \<and> (l' ! 0 = NaN \<or> within_clip (l' ! 0)) \<and> (r' ! 0 = NaN \<or> within_clip (r' ! 0))"
proof -
  from process_sample_example [of "Num 5" "Num (13 / 2)" "Num (- 7)" "Num (- (11 / 2))"]
  obtain rp' where ps: "process_sample 0 ([Num 5], [Num (- 7)], RiserProcessor_example)
      = Inr ([Num (6 / 5)], [Num (- (6 / 5))], rp')"
    by (auto simp: setClamp_def)
  have run: "RiserProcessor_process (Some [Num 5]) (Some [Num (- 7)]) 1 RiserProcessor_example
       = Inr (Some [Num (6 / 5)], Some [Num (- (6 / 5))], rp')"
    using ps by (simp add: RiserProcessor_process_def)
  from safety_clip [OF run] have
    "([Num (6 / 5)] ! 0 = NaN \<or> within_clip ([Num (6 / 5)] ! 0))
     \<and> ([Num (- (6 / 5))] ! 0 = NaN \<or> within_clip ([Num (- (6 / 5))] ! 0))"
    by simp
  with run show ?thesis by blast
qed

end
